theory Spec2Isabelle
  imports Complex_Main
begin

section \<open>The adaptive RAG control loop of BiBorBA\<close>

text \<open>
  A shallow embedding of \<^verbatim>\<open>app/core/graph/adaptive_graph.py\<close>, of the node modules under
  \<^verbatim>\<open>app/core/graph/nodes/\<close> and of the part of \<^verbatim>\<open>app/services/graph_service.py\<close> that
  starts the graph and reads its final state.

  The language model and the retrieval backend are external and not deterministic. They
  are parameters of the model, collected in the record \<open>world\<close>. Every invocation is
  appended to a log of calls, and every collaborator receives the number of calls made
  before it as its first argument, so that the same arguments may be answered differently
  at different moments of one execution: a universally quantified \<open>world\<close> covers every
  sequence of verdicts. A collaborator that raises returns \<open>Inl\<close> of the exception.
\<close>

subsection \<open>Data\<close>

datatype error =
    FileNotFoundError string
  | RuntimeError string
  | ValueError string
  | AttributeError string
  | GraphRecursionError
  | OtherError string

record document =
  page_content :: string
  metadata :: "(string \<times> string) list"

text \<open>The fields of \<^verbatim>\<open>Settings\<close> in \<^verbatim>\<open>config.py\<close> that the loop reads.\<close>

record settings =
  max_generation_retries :: int
  max_transform_retries :: int
  max_total_iterations :: int
  graph_recursion_limit :: int
  document_grading_batch_size :: int
  document_grading_retry_attempts :: int
  document_grading_confidence_threshold :: real
  enable_retry_variation :: bool
  retry_temperature_increment :: real
  retrieval_k :: int
  hallucination_batch_size :: int

definition default_settings :: settings where
  "default_settings =
     \<lparr> max_generation_retries = 2, max_transform_retries = 2, max_total_iterations = 15,
       graph_recursion_limit = 20,
       document_grading_batch_size = 4, document_grading_retry_attempts = 2,
       document_grading_confidence_threshold = 6 / 10,
       enable_retry_variation = True, retry_temperature_increment = 1 / 10,
       retrieval_k = 4, hallucination_batch_size = 3 \<rparr>"

text \<open>
  \<^verbatim>\<open>GraphState\<close> of \<^verbatim>\<open>utils.py\<close>. The initial state built by \<^verbatim>\<open>execute_query\<close> has every
  key and every node returns every key, so the defaults of the \<^verbatim>\<open>state.get(key, default)\<close>
  reads of the source are never used and a field read is the model of both \<^verbatim>\<open>state[key]\<close>
  and \<^verbatim>\<open>state.get(key, default)\<close>. Of \<^verbatim>\<open>model_config\<close> the loop reads and writes the
  temperature only; its values are reals here (the rounding of floating-point arithmetic
  is not modelled).
\<close>

type_synonym model_config_t = "string \<rightharpoonup> real"

record graph_state =
  question :: string
  original_question :: string
  generation :: string
  documents :: "document list"
  model_config :: model_config_t
  collection_ids :: "int list"
  generation_attempts :: int
  transform_attempts :: int
  total_iterations :: int
  max_iterations_reached :: bool
  no_relevant_docs_fallback :: bool
  fallback_type :: string

text \<open>The structured output \<^verbatim>\<open>GradeDocuments\<close> of the document grader.\<close>

record grade_documents_score =
  binary_score :: string
  confidence :: real
  reasoning :: string

text \<open>What a retriever may hand back to \<^verbatim>\<open>retrieve\<close>, which normalises it.\<close>

datatype raw_item = DocItem document | OtherItem string

datatype raw_documents = RawNone | RawStr string | RawList "raw_item list" | RawOther string

text \<open>One entry of the calls per invocation of a collaborator, with the arguments passed.\<close>

datatype call =
    RetrieverToolCall string
  | CollectionRetrieverCall int string
  | DocumentGraderCall string string
  | GeneratorCall string string
  | PureLLMCall string
  | RewriterCall string
  | HallucinationGraderCall string string
  | AnswerGraderCall string string

record world =
  retriever_tool_invoke :: "nat \<Rightarrow> string \<Rightarrow> error + raw_documents"
  collection_retriever_invoke :: "nat \<Rightarrow> int \<Rightarrow> int \<Rightarrow> string \<Rightarrow> error + raw_item list"
  document_grader_ainvoke ::
    "nat \<Rightarrow> nat \<Rightarrow> nat \<Rightarrow> string \<Rightarrow> string \<Rightarrow> error + grade_documents_score"
  rag_chain_invoke :: "nat \<Rightarrow> model_config_t \<Rightarrow> string \<Rightarrow> string \<Rightarrow> error + string"
  llm_chain_invoke :: "nat \<Rightarrow> model_config_t \<Rightarrow> string \<Rightarrow> error + string"
  question_rewriter_invoke :: "nat \<Rightarrow> model_config_t \<Rightarrow> string \<Rightarrow> error + string"
  hallucination_grader_invoke :: "nat \<Rightarrow> string \<Rightarrow> string \<Rightarrow> error + string"
  answer_grader_invoke :: "nat \<Rightarrow> string \<Rightarrow> string \<Rightarrow> error + string"

subsection \<open>Strings\<close>

text \<open>
  \<^verbatim>\<open>str.lower()\<close> on the ASCII letters, which is all the comparisons of the source
  (with \<^verbatim>\<open>"yes"\<close>, \<^verbatim>\<open>"tcptransport"\<close>, \<^verbatim>\<open>"closed"\<close>) can see: no character outside
  ASCII is lowered to a letter of these words. An upper-case letter and its lower-case
  letter differ by 32, the sixth bit of the code.
\<close>

definition lower_char :: "char \<Rightarrow> char" where
  "lower_char c =
     (let n = (of_char c :: nat)
      in if 65 \<le> n \<and> n \<le> 90
         then (case c of Char b0 b1 b2 b3 b4 b5 b6 b7 \<Rightarrow> Char b0 b1 b2 b3 b4 True b6 b7)
         else c)"

definition lower :: "string \<Rightarrow> string" where
  "lower s = map lower_char s"

text \<open>\<^verbatim>\<open>sub in s\<close> on strings.\<close>

fun contains :: "string \<Rightarrow> string \<Rightarrow> bool" where
  "contains sub [] = (sub = [])"
| "contains sub (c # cs) = (take (length sub) (c # cs) = sub \<or> contains sub cs)"

fun join_str :: "string \<Rightarrow> string list \<Rightarrow> string" where
  "join_str sep [] = []"
| "join_str sep [x] = x"
| "join_str sep (x # y # ys) = x @ sep @ join_str sep (y # ys)"

text \<open>\<^verbatim>\<open>format_docs\<close> of \<^verbatim>\<open>utils.py\<close>: the contents joined by two newlines.\<close>

definition format_docs :: "document list \<Rightarrow> string" where
  "format_docs docs = join_str [CHR 0x0A, CHR 0x0A] (map page_content docs)"

subsection \<open>The retrieve node\<close>

definition to_document :: "raw_item \<Rightarrow> document" where
  "to_document item =
     (case item of
        DocItem d \<Rightarrow> d
      | OtherItem s \<Rightarrow> \<lparr> page_content = s, metadata = [(''source'', ''converted_from_list'')] \<rparr>)"

definition normalize_raw :: "raw_documents \<Rightarrow> document list" where
  "normalize_raw raw =
     (case raw of
        RawNone \<Rightarrow> []
      | RawStr s \<Rightarrow> [\<lparr> page_content = s, metadata = [(''source'', ''retriever_string'')] \<rparr>]
      | RawList items \<Rightarrow> map to_document items
      | RawOther s \<Rightarrow> [\<lparr> page_content = s, metadata = [(''source'', ''converted_single_item'')] \<rparr>])"

text \<open>
  The loop over \<^verbatim>\<open>collection_ids\<close>: a collection whose retriever raises is skipped (its
  exception is caught and logged inside the loop).
\<close>

fun retrieve_collections ::
  "settings \<Rightarrow> world \<Rightarrow> string \<Rightarrow> int list \<Rightarrow> call list \<Rightarrow> raw_item list \<times> call list" where
  "retrieve_collections cfg w q [] calls = ([], calls)"
| "retrieve_collections cfg w q (coll_id # rest) calls =
     (let (more, calls') = retrieve_collections cfg w q rest (calls @ [CollectionRetrieverCall coll_id q])
      in case collection_retriever_invoke w (length calls) coll_id (retrieval_k cfg) q of
           Inl e \<Rightarrow> (more, calls')
         | Inr docs \<Rightarrow> (docs @ more, calls'))"

text \<open>
  \<^verbatim>\<open>retrieve\<close>: the three \<^verbatim>\<open>return\<close>s of the source build the same dictionary, with the
  retrieved documents on success and with no documents after \<^verbatim>\<open>FileNotFoundError\<close> or any
  other exception. The node itself never raises.
\<close>

definition retrieve :: "settings \<Rightarrow> world \<Rightarrow> graph_state \<Rightarrow> call list \<Rightarrow> graph_state \<times> call list" where
  "retrieve cfg w state calls =
     (let q = question state;
          ids = collection_ids state;
          total = total_iterations state + 1;
          (docs, calls') =
            (if ids \<noteq> [] then
               (let (items, l) = retrieve_collections cfg w q ids calls
                in (normalize_raw (RawList items), l))
             else
               (case retriever_tool_invoke w (length calls) q of
                  Inl e \<Rightarrow> ([], calls @ [RetrieverToolCall q])
                | Inr raw \<Rightarrow> (normalize_raw raw, calls @ [RetrieverToolCall q])))
      in (\<lparr> question = q,
            original_question = original_question state,
            generation = generation state,
            documents = docs,
            model_config = model_config state,
            collection_ids = ids,
            generation_attempts = generation_attempts state,
            transform_attempts = transform_attempts state,
            total_iterations = total,
            max_iterations_reached = False,
            no_relevant_docs_fallback = False,
            fallback_type = '''' \<rparr>, calls'))"

subsection \<open>The document grader node\<close>

definition error_str :: "error \<Rightarrow> string" where
  "error_str e =
     (case e of
        FileNotFoundError m \<Rightarrow> m
      | RuntimeError m \<Rightarrow> m
      | ValueError m \<Rightarrow> m
      | AttributeError m \<Rightarrow> m
      | GraphRecursionError \<Rightarrow> ''Recursion limit reached''
      | OtherError m \<Rightarrow> m)"

text \<open>
  The test of the \<^verbatim>\<open>except RuntimeError\<close> handler: a \<^verbatim>\<open>RuntimeError\<close> whose lowered
  message mentions both \<^verbatim>\<open>tcptransport\<close> and \<^verbatim>\<open>closed\<close>.
\<close>

definition is_tcp_error :: "error \<Rightarrow> bool" where
  "is_tcp_error e =
     (case e of
        RuntimeError m \<Rightarrow> contains ''tcptransport'' (lower m) \<and> contains ''closed'' (lower m)
      | _ \<Rightarrow> False)"

text \<open>
  \<^verbatim>\<open>for attempt in range(max_retries)\<close> of \<^verbatim>\<open>grade_single_doc\<close>. The first argument is the
  invocation of the grader at a given attempt. The result is the score (\<open>None\<close> when the
  range is empty and \<^verbatim>\<open>score\<close> keeps its initial \<^verbatim>\<open>None\<close>) or the exception that is raised
  again, together with the number of invocations made.
\<close>

fun grading_attempts ::
  "(nat \<Rightarrow> error + grade_documents_score) \<Rightarrow> int \<Rightarrow> nat \<Rightarrow> nat
     \<Rightarrow> (error + grade_documents_score option) \<times> nat" where
  "grading_attempts invoke max_retries 0 attempt = (Inr None, attempt)"
| "grading_attempts invoke max_retries (Suc remaining) attempt =
     (case invoke attempt of
        Inr score \<Rightarrow> (Inr (Some score), Suc attempt)
      | Inl e \<Rightarrow>
          if is_tcp_error e \<and> int attempt < max_retries - 1
          then grading_attempts invoke max_retries remaining (Suc attempt)
          else (Inl e, Suc attempt))"

text \<open>
  The tuple \<^verbatim>\<open>(doc, is_relevant, error, confidence, reasoning)\<close> that \<^verbatim>\<open>grade_single_doc\<close>
  returns, and the invocations it made. Its whole body stands in
  \<^verbatim>\<open>try: ... except Exception\<close>, so every exception ends in the tuple with
  \<^verbatim>\<open>is_relevant = False\<close>: also the \<^verbatim>\<open>AttributeError\<close> of \<^verbatim>\<open>score.binary_score\<close> on \<^verbatim>\<open>None\<close>.
  The argument \<open>r\<close> is the number of calls logged when the node starts: the documents
  of a batch are graded concurrently, so the grader is indexed by the node execution, the
  document and the attempt rather than by a global order of its calls.
\<close>

type_synonym grading_result = "document \<times> bool \<times> error option \<times> real \<times> string"

definition grade_single_doc ::
  "settings \<Rightarrow> world \<Rightarrow> nat \<Rightarrow> string \<Rightarrow> document \<Rightarrow> nat \<Rightarrow> grading_result \<times> call list" where
  "grade_single_doc cfg w r q doc doc_index =
     (let content = page_content doc;
          max_retries = document_grading_retry_attempts cfg;
          (res, n) = grading_attempts (\<lambda>attempt. document_grader_ainvoke w r doc_index attempt q content)
                       max_retries (nat max_retries) 0;
          made = replicate n (DocumentGraderCall q content)
      in case res of
           Inl e \<Rightarrow> ((doc, False, Some e, 0, ''Error: '' @ error_str e), made)
         | Inr None \<Rightarrow>
             (let e = AttributeError
                        ([CHR 0x27] @ ''NoneType'' @ [CHR 0x27] @ '' object has no attribute '' @
                         [CHR 0x27] @ ''binary_score'' @ [CHR 0x27])
              in ((doc, False, Some e, 0, ''Error: '' @ error_str e), made))
         | Inr (Some score) \<Rightarrow>
             (let grade = binary_score score;
                  conf = confidence score;
                  confidence_threshold = document_grading_confidence_threshold cfg;
                  is_relevant = (grade = ''yes'' \<and> conf \<ge> confidence_threshold)
              in ((doc, is_relevant, None, conf, reasoning score), made)))"

text \<open>
  The loop \<^verbatim>\<open>for batch_start in range(0, len(normalized_docs), batch_size)\<close> of
  \<^verbatim>\<open>grade_all_docs\<close> for a positive batch size. \<^verbatim>\<open>asyncio.gather\<close> returns the results in
  the order of the tasks; no task raises (see above), so the branch for a result that is
  an exception is never taken.
\<close>

function grade_batches ::
  "settings \<Rightarrow> world \<Rightarrow> nat \<Rightarrow> string \<Rightarrow> document list \<Rightarrow> nat \<Rightarrow> nat
     \<Rightarrow> (grading_result \<times> call list) list" where
  "grade_batches cfg w r q docs batch_size batch_start =
     (if 0 < batch_size \<and> batch_start < length docs then
        (let batch_end = min (batch_start + batch_size) (length docs);
             batch_docs = take (batch_end - batch_start) (drop batch_start docs);
             batch_results =
               map (\<lambda>(i, doc). grade_single_doc cfg w r q doc (batch_start + i))
                 (enumerate 0 batch_docs)
         in batch_results @ grade_batches cfg w r q docs batch_size (batch_start + batch_size))
      else [])"
  by pat_completeness auto
termination
  by (relation "measure (\<lambda>(cfg, w, r, q, docs, batch_size, batch_start). length docs - batch_start)")
     auto

declare grade_batches.simps [simp del]

text \<open>
  \<^verbatim>\<open>range(0, n, step)\<close> raises \<^verbatim>\<open>ValueError\<close> for a step of zero and is empty for a
  negative step.
\<close>

definition grade_all_docs ::
  "settings \<Rightarrow> world \<Rightarrow> nat \<Rightarrow> string \<Rightarrow> document list
     \<Rightarrow> error + (grading_result \<times> call list) list" where
  "grade_all_docs cfg w r q docs =
     (let batch_size = document_grading_batch_size cfg
      in if batch_size = 0 then Inl (ValueError ''range() arg 3 must not be zero'')
         else if batch_size < 0 then Inr []
         else Inr (grade_batches cfg w r q docs (nat batch_size) 0))"

text \<open>
  \<^verbatim>\<open>grade_documents\<close>. The state's documents are \<^verbatim>\<open>Document\<close> objects already (the type
  \<open>document list\<close>), which the normalisation at the head of the source leaves as they
  are. A document is kept when \<^verbatim>\<open>is_relevant and error is None\<close>.
\<close>

definition keep_result :: "grading_result \<times> call list \<Rightarrow> bool" where
  "keep_result x = (case x of ((doc, is_relevant, err, conf, reas), made) \<Rightarrow> is_relevant \<and> err = None)"

definition grade_documents ::
  "settings \<Rightarrow> world \<Rightarrow> graph_state \<Rightarrow> call list \<Rightarrow> error + graph_state \<times> call list" where
  "grade_documents cfg w state calls =
     (let q = question state;
          normalized_docs = documents state;
          total = total_iterations state + 1
      in case grade_all_docs cfg w (length calls) q normalized_docs of
           Inl e \<Rightarrow> Inl e
         | Inr grading_results \<Rightarrow>
             (let filtered_docs = map (\<lambda>x. fst (fst x)) (filter keep_result grading_results)
              in Inr (\<lparr> question = q,
                        original_question = original_question state,
                        generation = generation state,
                        documents = filtered_docs,
                        model_config = model_config state,
                        collection_ids = collection_ids state,
                        generation_attempts = generation_attempts state,
                        transform_attempts = transform_attempts state,
                        total_iterations = total,
                        max_iterations_reached = False,
                        no_relevant_docs_fallback = False,
                        fallback_type = '''' \<rparr>,
                      calls @ concat (map snd grading_results))))"

subsection \<open>The hallucination grader\<close>

text \<open>
  The loop \<^verbatim>\<open>for batch_start in range(0, total_docs, settings.hallucination_batch_size)\<close>
  of \<^verbatim>\<open>grade_hallucination\<close> for a positive batch size: a batch whose invocation raises
  is left by \<^verbatim>\<open>continue\<close>, a batch scored \<^verbatim>\<open>yes\<close> (in any case of the letters) returns at
  once, and the end of the range returns \<^verbatim>\<open>False\<close>.
\<close>

function hallucination_batches ::
  "world \<Rightarrow> document list \<Rightarrow> string \<Rightarrow> nat \<Rightarrow> nat \<Rightarrow> call list \<Rightarrow> bool \<times> call list" where
  "hallucination_batches w docs gen batch_size batch_start calls =
     (if 0 < batch_size \<and> batch_start < length docs then
        (let batch_end = min (batch_start + batch_size) (length docs);
             doc_batch = take (batch_end - batch_start) (drop batch_start docs)
         in if doc_batch = [] then
              hallucination_batches w docs gen batch_size (batch_start + batch_size) calls
            else
              (let formatted_batch = format_docs doc_batch;
                   calls' = calls @ [HallucinationGraderCall formatted_batch gen]
               in case hallucination_grader_invoke w (length calls) formatted_batch gen of
                    Inl e \<Rightarrow>
                      hallucination_batches w docs gen batch_size (batch_start + batch_size) calls'
                  | Inr score \<Rightarrow>
                      if lower score = ''yes'' then (True, calls')
                      else hallucination_batches w docs gen batch_size (batch_start + batch_size) calls'))
      else (False, calls))"
  by pat_completeness auto
termination
  by (relation "measure (\<lambda>(w, docs, gen, batch_size, batch_start, calls). length docs - batch_start)")
     auto

declare hallucination_batches.simps [simp del]

definition grade_hallucination ::
  "settings \<Rightarrow> world \<Rightarrow> graph_state \<Rightarrow> call list \<Rightarrow> error + bool \<times> call list" where
  "grade_hallucination cfg w state calls =
     (let docs = documents state;
          gen = generation state;
          batch_size = hallucination_batch_size cfg
      in if docs = [] then Inr (False, calls)
         else if batch_size = 0 then Inl (ValueError ''range() arg 3 must not be zero'')
         else if batch_size < 0 then Inr (False, calls)
         else Inr (hallucination_batches w docs gen (nat batch_size) 0 calls))"

subsection \<open>The answer grader\<close>

text \<open>
  \<^verbatim>\<open>AnswerGrader.prepare_input\<close>, \<^verbatim>\<open>AnswerGrader.process_result\<close> and \<^verbatim>\<open>BaseGrader.grade\<close>:
  an exception of the invocation is not caught.
\<close>

definition prepare_input :: "graph_state \<Rightarrow> string \<times> string" where
  "prepare_input state = (question state, generation state)"

definition process_result :: "string \<Rightarrow> bool" where
  "process_result score = (lower score = ''yes'')"

definition answer_grader :: "world \<Rightarrow> graph_state \<Rightarrow> call list \<Rightarrow> error + bool \<times> call list" where
  "answer_grader w state calls =
     (let (q, gen) = prepare_input state
      in case answer_grader_invoke w (length calls) q gen of
           Inl e \<Rightarrow> Inl e
         | Inr score \<Rightarrow> Inr (process_result score, calls @ [AnswerGraderCall q gen]))"

subsection \<open>Generator, rewriter and the two fallback nodes\<close>

definition generate ::
  "settings \<Rightarrow> world \<Rightarrow> graph_state \<Rightarrow> call list \<Rightarrow> error + graph_state \<times> call list" where
  "generate cfg w state calls =
     (let q = question state;
          original = original_question state;
          docs = documents state;
          mc = model_config state;
          attempts = generation_attempts state + 1;
          total = total_iterations state + 1;
          base_temperature = (case mc ''temperature'' of None \<Rightarrow> 0 | Some t \<Rightarrow> t);
          mc' = (if attempts > 1 \<and> enable_retry_variation cfg
                 then mc(''temperature'' \<mapsto>
                        min (base_temperature + real_of_int (attempts - 1) * retry_temperature_increment cfg) 1)
                 else mc)
      in case rag_chain_invoke w (length calls) mc' (format_docs docs) original of
           Inl e \<Rightarrow> Inl e
         | Inr gen \<Rightarrow>
             Inr (\<lparr> question = q,
                    original_question = original,
                    generation = gen,
                    documents = docs,
                    model_config = mc',
                    collection_ids = collection_ids state,
                    generation_attempts = attempts,
                    transform_attempts = transform_attempts state,
                    total_iterations = total,
                    max_iterations_reached = False,
                    no_relevant_docs_fallback = False,
                    fallback_type = '''' \<rparr>,
                  calls @ [GeneratorCall (format_docs docs) original]))"

definition transform_query ::
  "world \<Rightarrow> graph_state \<Rightarrow> call list \<Rightarrow> error + graph_state \<times> call list" where
  "transform_query w state calls =
     (let q = question state;
          mc = model_config state;
          attempts = transform_attempts state + 1;
          total = total_iterations state + 1
      in case question_rewriter_invoke w (length calls) mc q of
           Inl e \<Rightarrow> Inl e
         | Inr better_question \<Rightarrow>
             Inr (\<lparr> question = better_question,
                    original_question = original_question state,
                    generation = generation state,
                    documents = documents state,
                    model_config = mc,
                    collection_ids = collection_ids state,
                    generation_attempts = generation_attempts state,
                    transform_attempts = attempts,
                    total_iterations = total,
                    max_iterations_reached = False,
                    no_relevant_docs_fallback = False,
                    fallback_type = '''' \<rparr>,
                  calls @ [RewriterCall q]))"

definition generate_no_docs_fallback ::
  "world \<Rightarrow> graph_state \<Rightarrow> call list \<Rightarrow> error + graph_state \<times> call list" where
  "generate_no_docs_fallback w state calls =
     (let q = question state;
          mc = model_config state
      in case llm_chain_invoke w (length calls) mc q of
           Inl e \<Rightarrow> Inl e
         | Inr gen \<Rightarrow>
             Inr (\<lparr> question = q,
                    original_question = original_question state,
                    generation = gen,
                    documents = [],
                    model_config = mc,
                    collection_ids = collection_ids state,
                    generation_attempts = 1,
                    transform_attempts = transform_attempts state,
                    total_iterations = total_iterations state + 1,
                    max_iterations_reached = True,
                    no_relevant_docs_fallback = True,
                    fallback_type = ''no_relevant_docs'' \<rparr>,
                  calls @ [PureLLMCall q]))"

definition mark_max_iterations :: "graph_state \<Rightarrow> graph_state" where
  "mark_max_iterations state =
     state\<lparr> max_iterations_reached := True,
            no_relevant_docs_fallback := False,
            fallback_type := ''max_iterations'' \<rparr>"

subsection \<open>The decision functions of the conditional edges\<close>

definition check_iteration_limits :: "settings \<Rightarrow> graph_state \<Rightarrow> bool" where
  "check_iteration_limits cfg state =
     (if generation_attempts state \<ge> max_generation_retries cfg then True
      else if transform_attempts state \<ge> max_transform_retries cfg then True
      else if total_iterations state \<ge> max_total_iterations cfg then True
      else False)"

datatype documents_decision = To_transform_query | To_generate | To_no_docs_fallback

definition decide_to_generate :: "settings \<Rightarrow> graph_state \<Rightarrow> documents_decision" where
  "decide_to_generate cfg state =
     (if documents state = [] then
        (if transform_attempts state \<ge> max_transform_retries cfg then To_no_docs_fallback
         else To_transform_query)
      else To_generate)"

text \<open>
  The four strings \<^verbatim>\<open>"not supported"\<close>, \<^verbatim>\<open>"useful"\<close>, \<^verbatim>\<open>"not useful"\<close> and
  \<^verbatim>\<open>"max_iterations"\<close>. The graders are called with the state and its log, and the log
  that comes back shows which of them ran.
\<close>

datatype generation_decision = Not_supported | Useful | Not_useful | Max_iterations

definition grade_generation_v_documents_and_question ::
  "settings \<Rightarrow> world \<Rightarrow> graph_state \<Rightarrow> call list \<Rightarrow> error + generation_decision \<times> call list" where
  "grade_generation_v_documents_and_question cfg w state calls =
     (if check_iteration_limits cfg state then Inr (Max_iterations, calls)
      else
        (case grade_hallucination cfg w state calls of
           Inl e \<Rightarrow> Inl e
         | Inr (is_grounded, calls1) \<Rightarrow>
             if is_grounded then
               (case answer_grader w state calls1 of
                  Inl e \<Rightarrow> Inl e
                | Inr (addresses_question, calls2) \<Rightarrow>
                    if addresses_question then Inr (Useful, calls2)
                    else if transform_attempts state \<ge> max_transform_retries cfg then Inr (Useful, calls2)
                    else Inr (Not_useful, calls2))
             else if generation_attempts state \<ge> max_generation_retries cfg then Inr (Max_iterations, calls1)
             else Inr (Not_supported, calls1)))"

subsection \<open>The graph\<close>

datatype node = Retrieve | Grade_documents | Generate | Transform_query | Fallback | No_docs_fallback

datatype target = Node node | END

text \<open>The function registered for each node by \<^verbatim>\<open>workflow.add_node\<close>.\<close>

definition run_node ::
  "settings \<Rightarrow> world \<Rightarrow> node \<Rightarrow> graph_state \<Rightarrow> call list \<Rightarrow> error + graph_state \<times> call list" where
  "run_node cfg w n state calls =
     (case n of
        Retrieve \<Rightarrow> Inr (retrieve cfg w state calls)
      | Grade_documents \<Rightarrow> grade_documents cfg w state calls
      | Generate \<Rightarrow> generate cfg w state calls
      | Transform_query \<Rightarrow> transform_query w state calls
      | Fallback \<Rightarrow> Inr (mark_max_iterations state, calls)
      | No_docs_fallback \<Rightarrow> generate_no_docs_fallback w state calls)"

text \<open>
  The edges of \<^verbatim>\<open>create_adaptive_graph\<close>, from a node and the state it returned: the
  plain edges of \<^verbatim>\<open>add_edge\<close> and the two \<^verbatim>\<open>add_conditional_edges\<close> with their tables.
\<close>

definition route ::
  "settings \<Rightarrow> world \<Rightarrow> node \<Rightarrow> graph_state \<Rightarrow> call list \<Rightarrow> error + target \<times> call list" where
  "route cfg w n state calls =
     (case n of
        Retrieve \<Rightarrow> Inr (Node Grade_documents, calls)
      | Grade_documents \<Rightarrow>
          (case decide_to_generate cfg state of
             To_transform_query \<Rightarrow> Inr (Node Transform_query, calls)
           | To_generate \<Rightarrow> Inr (Node Generate, calls)
           | To_no_docs_fallback \<Rightarrow> Inr (Node No_docs_fallback, calls))
      | No_docs_fallback \<Rightarrow> Inr (END, calls)
      | Transform_query \<Rightarrow> Inr (Node Retrieve, calls)
      | Generate \<Rightarrow>
          (case grade_generation_v_documents_and_question cfg w state calls of
             Inl e \<Rightarrow> Inl e
           | Inr (Not_supported, calls') \<Rightarrow> Inr (Node Generate, calls')
           | Inr (Useful, calls') \<Rightarrow> Inr (END, calls')
           | Inr (Not_useful, calls') \<Rightarrow> Inr (Node Transform_query, calls')
           | Inr (Max_iterations, calls') \<Rightarrow> Inr (Node Fallback, calls'))
      | Fallback \<Rightarrow> Inr (END, calls))"

text \<open>One step of the graph: a node, then the edge out of it.\<close>

definition step ::
  "settings \<Rightarrow> world \<Rightarrow> node \<Rightarrow> graph_state \<Rightarrow> call list
     \<Rightarrow> error + target \<times> graph_state \<times> call list" where
  "step cfg w n state calls =
     (case run_node cfg w n state calls of
        Inl e \<Rightarrow> Inl e
      | Inr (state', calls1) \<Rightarrow>
          (case route cfg w n state' calls1 of
             Inl e \<Rightarrow> Inl e
           | Inr (t, calls2) \<Rightarrow> Inr (t, state', calls2)))"

text \<open>
  The execution of the compiled graph from a node. The first argument is the number of
  steps the driver allows (LangGraph's \<^verbatim>\<open>recursion_limit\<close>, which stops a graph that has
  not reached \<^verbatim>\<open>END\<close> by raising \<^verbatim>\<open>GraphRecursionError\<close>). The result is the list of the
  nodes that completed, in order, and how the execution ended: at \<^verbatim>\<open>END\<close> with the final
  state and the log of calls, by an exception of a node or of an edge function, or at
  the recursion limit.
\<close>

datatype run_result = Completed graph_state "call list" | Raised error | Recursion_limit

fun run_graph ::
  "settings \<Rightarrow> world \<Rightarrow> nat \<Rightarrow> node \<Rightarrow> graph_state \<Rightarrow> call list \<Rightarrow> node list \<times> run_result" where
  "run_graph cfg w 0 n state calls = ([], Recursion_limit)"
| "run_graph cfg w (Suc limit) n state calls =
     (case step cfg w n state calls of
        Inl e \<Rightarrow> ([], Raised e)
      | Inr (END, state', calls') \<Rightarrow> ([n], Completed state' calls')
      | Inr (Node n', state', calls') \<Rightarrow>
          (let (trace, res) = run_graph cfg w limit n' state' calls' in (n # trace, res)))"

subsection \<open>The caller: \<^verbatim>\<open>GraphService.execute_query\<close>\<close>

definition initial_state :: "string \<Rightarrow> model_config_t \<Rightarrow> int list \<Rightarrow> graph_state" where
  "initial_state q mc ids =
     \<lparr> question = q,
       original_question = q,
       generation = '''',
       documents = [],
       model_config = mc,
       collection_ids = ids,
       generation_attempts = 0,
       transform_attempts = 0,
       total_iterations = 0,
       max_iterations_reached = False,
       no_relevant_docs_fallback = False,
       fallback_type = '''' \<rparr>"





subsection \<open>Notions used by the properties\<close>



text \<open>
  The executions in which nothing raises out of a node: the two batch sizes are not zero
  (so \<^verbatim>\<open>range\<close> accepts them), and the generator, the rewriter, the model of the no-docs
  fallback and the answer grader return a value at every call. The exceptions of the
  retriever, of the document grader and of the hallucination grader are caught by the
  nodes and need no assumption.
\<close>

definition never_raises :: "settings \<Rightarrow> world \<Rightarrow> bool" where
  "never_raises cfg w \<longleftrightarrow>
     document_grading_batch_size cfg \<noteq> 0 \<and> hallucination_batch_size cfg \<noteq> 0 \<and>
     (\<forall>n mc context q. \<exists>gen. rag_chain_invoke w n mc context q = Inr gen) \<and>
     (\<forall>n mc q. \<exists>gen. llm_chain_invoke w n mc q = Inr gen) \<and>
     (\<forall>n mc q. \<exists>better. question_rewriter_invoke w n mc q = Inr better) \<and>
     (\<forall>n q gen. \<exists>score. answer_grader_invoke w n q gen = Inr score)"

text \<open>
  Retrieval and grading that leave no relevant document: whatever the state, retrieve
  followed by grade_documents returns an empty document list.
\<close>

definition no_relevant_documents :: "settings \<Rightarrow> world \<Rightarrow> bool" where
  "no_relevant_documents cfg w \<longleftrightarrow>
     (\<forall>state calls. \<exists>state' calls'.
        grade_documents cfg w (fst (retrieve cfg w state calls)) (snd (retrieve cfg w state calls))
          = Inr (state', calls') \<and>
        documents state' = [])"

text \<open>
  The three outcomes of a final state, told apart by \<^verbatim>\<open>fallback_type\<close> and the two
  flags.
\<close>

definition normal_success :: "graph_state \<Rightarrow> bool" where
  "normal_success state \<longleftrightarrow>
     fallback_type state = '''' \<and> \<not> max_iterations_reached state \<and> \<not> no_relevant_docs_fallback state"

definition max_iterations_outcome :: "graph_state \<Rightarrow> bool" where
  "max_iterations_outcome state \<longleftrightarrow>
     fallback_type state = ''max_iterations'' \<and> max_iterations_reached state \<and>
     \<not> no_relevant_docs_fallback state"

definition no_docs_outcome :: "graph_state \<Rightarrow> bool" where
  "no_docs_outcome state \<longleftrightarrow>
     fallback_type state = ''no_relevant_docs'' \<and> max_iterations_reached state \<and>
     no_relevant_docs_fallback state"

text \<open>
  The batches of the hallucination grader as the specification words them: batch \<open>i\<close>
  of a list cut into pieces of a fixed size, the number of pieces, whether the check of
  batch \<open>i\<close> returns grounded when the first batch is checked at call number \<open>base\<close>,
  and the calls for the first \<open>k\<close> batches.
\<close>

definition batch :: "nat \<Rightarrow> 'a list \<Rightarrow> nat \<Rightarrow> 'a list" where
  "batch bsize xs i = take bsize (drop (i * bsize) xs)"

definition num_batches :: "nat \<Rightarrow> 'a list \<Rightarrow> nat" where
  "num_batches bsize xs = (length xs + bsize - 1) div bsize"

definition batch_grounded :: "world \<Rightarrow> nat \<Rightarrow> document list \<Rightarrow> string \<Rightarrow> nat \<Rightarrow> nat \<Rightarrow> bool" where
  "batch_grounded w bsize docs gen base i =
     (case hallucination_grader_invoke w (base + i) (format_docs (batch bsize docs i)) gen of
        Inl e \<Rightarrow> False
      | Inr score \<Rightarrow> lower score = ''yes'')"

definition batch_calls :: "nat \<Rightarrow> document list \<Rightarrow> string \<Rightarrow> nat \<Rightarrow> call list" where
  "batch_calls bsize docs gen k =
     map (\<lambda>i. HallucinationGraderCall (format_docs (batch bsize docs i)) gen) [0..<k]"

text \<open>
  The policy of the document grader as the specification words it: the grading of the
  document at position \<open>i\<close> ends with a score whose label is \<^verbatim>\<open>yes\<close> and whose
  confidence reaches the threshold.
\<close>

definition accepted :: "settings \<Rightarrow> world \<Rightarrow> nat \<Rightarrow> string \<Rightarrow> nat \<times> document \<Rightarrow> bool" where
  "accepted cfg w r q x =
     (case x of (i, doc) \<Rightarrow>
        (case fst (grading_attempts (\<lambda>attempt. document_grader_ainvoke w r i attempt q (page_content doc))
                     (document_grading_retry_attempts cfg)
                     (nat (document_grading_retry_attempts cfg)) 0) of
           Inr (Some score) \<Rightarrow>
             binary_score score = ''yes'' \<and>
             confidence score \<ge> document_grading_confidence_threshold cfg
         | _ \<Rightarrow> False))"

subsection \<open>Stub collaborators for concrete executions\<close>

definition stub_world ::
  "(string \<Rightarrow> raw_documents) \<Rightarrow> (string \<Rightarrow> error + grade_documents_score)
     \<Rightarrow> (nat \<Rightarrow> string \<Rightarrow> error + string) \<Rightarrow> string \<Rightarrow> world" where
  "stub_world retriever doc_grader hallucination_grader answer_score =
     \<lparr> retriever_tool_invoke = (\<lambda>n q. Inr (retriever q)),
       collection_retriever_invoke = (\<lambda>n coll_id k q. Inr []),
       document_grader_ainvoke = (\<lambda>r i attempt q content. doc_grader content),
       rag_chain_invoke = (\<lambda>n mc context q. Inr (''A: '' @ q)),
       llm_chain_invoke = (\<lambda>n mc q. Inr (''G: '' @ q)),
       question_rewriter_invoke = (\<lambda>n mc q. Inr (q @ ''+'')),
       hallucination_grader_invoke = (\<lambda>n docs gen. hallucination_grader n docs),
       answer_grader_invoke = (\<lambda>n q gen. Inr answer_score) \<rparr>"

definition relevant_score :: "error + grade_documents_score" where
  "relevant_score = Inr \<lparr> binary_score = ''yes'', confidence = 9 / 10, reasoning = ''on topic'' \<rparr>"

definition join_doc :: document where
  "join_doc = \<lparr> page_content = ''JOIN b ON a.id = b.id'', metadata = [] \<rparr>"

text \<open>A retriever that finds nothing.\<close>

definition no_documents_world :: world where
  "no_documents_world =
     stub_world (\<lambda>q. RawList []) (\<lambda>content. relevant_score) (\<lambda>n docs. Inr ''yes'') ''yes''"

text \<open>A retriever that finds a relevant document, and an answer that is never grounded.\<close>

definition ungrounded_world :: world where
  "ungrounded_world =
     stub_world (\<lambda>q. RawList [DocItem join_doc]) (\<lambda>content. relevant_score)
       (\<lambda>n docs. Inr ''no'') ''yes''"


text \<open>
  A document grader whose verdict depends on the document: the labels and confidences
  of the threshold test, an invocation that raises, and a confident \<^verbatim>\<open>no\<close>.
\<close>

definition threshold_world :: world where
  "threshold_world =
     stub_world (\<lambda>q. RawList [])
       (\<lambda>content.
          if content = ''d59'' then Inr \<lparr> binary_score = ''yes'', confidence = 59 / 100, reasoning = ''r'' \<rparr>
          else if content = ''d60'' then Inr \<lparr> binary_score = ''yes'', confidence = 60 / 100, reasoning = ''r'' \<rparr>
          else if content = ''derr'' then Inl (RuntimeError ''TCPTransport closed'')
          else Inr \<lparr> binary_score = ''no'', confidence = 95 / 100, reasoning = ''r'' \<rparr>)
       (\<lambda>n docs. Inr ''yes'') ''yes''"

definition threshold_docs :: "document list" where
  "threshold_docs =
     map (\<lambda>content. \<lparr> page_content = content, metadata = [] \<rparr>) [''d59'', ''d60'', ''derr'', ''dno'']"

text \<open>
  A hallucination grader that raises at its first call and answers \<^verbatim>\<open>Yes\<close> afterwards,
  and seven documents, which make three batches of the default size.
\<close>

definition batches_world :: world where
  "batches_world =
     stub_world (\<lambda>q. RawList []) (\<lambda>content. relevant_score)
       (\<lambda>n docs. if n = 0 then Inl (OtherError ''parse error'') else Inr ''Yes'') ''yes''"

definition seven_docs :: "document list" where
  "seven_docs =
     map (\<lambda>content. \<lparr> page_content = content, metadata = [] \<rparr>)
       [''d1'', ''d2'', ''d3'', ''d4'', ''d5'', ''d6'', ''d7'']"

text \<open>What a finished execution leaves: the final state and the log, if it reached \<^verbatim>\<open>END\<close>.\<close>

definition final_state :: "node list \<times> run_result \<Rightarrow> graph_state option" where
  "final_state r = (case snd r of Completed state calls \<Rightarrow> Some state | _ \<Rightarrow> None)"

definition final_calls :: "node list \<times> run_result \<Rightarrow> call list option" where
  "final_calls r = (case snd r of Completed state calls \<Rightarrow> Some calls | _ \<Rightarrow> None)"


section \<open>Properties\<close>

subsection \<open>Unfolding the loops and the stubs\<close>

lemma batch_nonempty:
  "0 < batch_size \<Longrightarrow> batch_start < length docs \<Longrightarrow>
   take (min (batch_start + batch_size) (length docs) - batch_start) (drop batch_start docs) \<noteq> []"
  by (simp add: min_def)

lemma grade_batches_stop:
  "\<not> batch_start < length docs \<Longrightarrow> grade_batches cfg w r q docs batch_size batch_start = []"
  by (subst grade_batches.simps) simp

lemma grade_batches_step:
  "0 < batch_size \<Longrightarrow> batch_start < length docs \<Longrightarrow>
   grade_batches cfg w r q docs batch_size batch_start =
     map (\<lambda>(i, doc). grade_single_doc cfg w r q doc (batch_start + i))
       (enumerate 0 (take (min (batch_start + batch_size) (length docs) - batch_start) (drop batch_start docs)))
     @ grade_batches cfg w r q docs batch_size (batch_start + batch_size)"
  by (subst grade_batches.simps) (simp add: Let_def)

lemma hallucination_batches_stop:
  "\<not> batch_start < length docs \<Longrightarrow>
   hallucination_batches w docs gen batch_size batch_start calls = (False, calls)"
  by (subst hallucination_batches.simps) simp

lemma hallucination_batches_step:
  assumes "0 < batch_size" and "batch_start < length docs"
  shows "hallucination_batches w docs gen batch_size batch_start calls =
     (let doc_batch = take (min (batch_start + batch_size) (length docs) - batch_start) (drop batch_start docs);
          formatted_batch = format_docs doc_batch;
          calls' = calls @ [HallucinationGraderCall formatted_batch gen]
      in case hallucination_grader_invoke w (length calls) formatted_batch gen of
           Inl e \<Rightarrow> hallucination_batches w docs gen batch_size (batch_start + batch_size) calls'
         | Inr score \<Rightarrow>
             if lower score = ''yes'' then (True, calls')
             else hallucination_batches w docs gen batch_size (batch_start + batch_size) calls')"
proof -
  note ne = batch_nonempty [OF assms]
  show ?thesis
    by (subst hallucination_batches.simps)
       (simp only: assms ne Let_def simp_thms if_True if_False)
qed

lemma grading_attempts_unfold:
  "0 < remaining \<Longrightarrow>
   grading_attempts invoke max_retries remaining attempt =
     (case invoke attempt of
        Inr score \<Rightarrow> (Inr (Some score), Suc attempt)
      | Inl e \<Rightarrow>
          if is_tcp_error e \<and> int attempt < max_retries - 1
          then grading_attempts invoke max_retries (remaining - 1) (Suc attempt)
          else (Inl e, Suc attempt))"
  by (cases remaining) (auto split: sum.splits)

lemma run_graph_unfold:
  "0 < limit \<Longrightarrow>
   run_graph cfg w limit n state calls =
     (case step cfg w n state calls of
        Inl e \<Rightarrow> ([], Raised e)
      | Inr (END, state', calls') \<Rightarrow> ([n], Completed state' calls')
      | Inr (Node n', state', calls') \<Rightarrow>
          (let (trace, res) = run_graph cfg w (limit - 1) n' state' calls' in (n # trace, res)))"
  by (cases limit) (auto split: sum.splits prod.splits target.splits)

lemma stub_world_simps:
  "retriever_tool_invoke (stub_world rt dg hg as) n q = Inr (rt q)"
  "collection_retriever_invoke (stub_world rt dg hg as) n coll_id k q = Inr []"
  "document_grader_ainvoke (stub_world rt dg hg as) r i attempt q content = dg content"
  "rag_chain_invoke (stub_world rt dg hg as) n mc context q = Inr (''A: '' @ q)"
  "llm_chain_invoke (stub_world rt dg hg as) n mc q = Inr (''G: '' @ q)"
  "question_rewriter_invoke (stub_world rt dg hg as) n mc q = Inr (q @ ''+'')"
  "hallucination_grader_invoke (stub_world rt dg hg as) n docs gen = hg n docs"
  "answer_grader_invoke (stub_world rt dg hg as) n q gen = Inr as"
  by (simp_all add: stub_world_def)

lemma default_settings_simps:
  "max_generation_retries default_settings = 2"
  "max_transform_retries default_settings = 2"
  "max_total_iterations default_settings = 15"
  "graph_recursion_limit default_settings = 20"
  "document_grading_batch_size default_settings = 4"
  "document_grading_retry_attempts default_settings = 2"
  "document_grading_confidence_threshold default_settings = 6 / 10"
  "enable_retry_variation default_settings = True"
  "retry_temperature_increment default_settings = 1 / 10"
  "retrieval_k default_settings = 4"
  "hallucination_batch_size default_settings = 3"
  by (simp_all add: default_settings_def)

lemmas eval_defs =
  run_node_def route_def step_def retrieve_def grade_documents_def grade_all_docs_def
  generate_def transform_query_def generate_no_docs_fallback_def mark_max_iterations_def
  check_iteration_limits_def decide_to_generate_def grade_generation_v_documents_and_question_def
  grade_hallucination_def answer_grader_def prepare_input_def process_result_def
  normalize_raw_def to_document_def grade_single_doc_def keep_result_def format_docs_def
  lower_def lower_char_def Let_def grade_batches_stop grade_batches_step
  hallucination_batches_stop hallucination_batches_step run_graph_unfold
  grading_attempts_unfold is_tcp_error_def
  stub_world_simps default_settings_simps initial_state_def relevant_score_def join_doc_def

subsection \<open>What each node does to the counters and the flags\<close>

lemma retrieve_fields:
  assumes "retrieve cfg w state calls = (state', calls')"
  shows "question state' = question state"
    and "original_question state' = original_question state"
    and "generation state' = generation state"
    and "generation_attempts state' = generation_attempts state"
    and "transform_attempts state' = transform_attempts state"
    and "total_iterations state' = total_iterations state + 1"
    and "fallback_type state' = ''''"
    and "\<not> max_iterations_reached state'"
    and "\<not> no_relevant_docs_fallback state'"
  using assms by (auto simp: retrieve_def Let_def split: prod.splits if_splits sum.splits)

lemma grade_documents_fields:
  assumes "grade_documents cfg w state calls = Inr (state', calls')"
  shows "question state' = question state"
    and "original_question state' = original_question state"
    and "generation state' = generation state"
    and "generation_attempts state' = generation_attempts state"
    and "transform_attempts state' = transform_attempts state"
    and "total_iterations state' = total_iterations state + 1"
    and "fallback_type state' = ''''"
    and "\<not> max_iterations_reached state'"
    and "\<not> no_relevant_docs_fallback state'"
  using assms by (auto simp: grade_documents_def Let_def split: sum.splits)

lemma generate_fields:
  assumes "generate cfg w state calls = Inr (state', calls')"
  shows "question state' = question state"
    and "original_question state' = original_question state"
    and "documents state' = documents state"
    and "generation_attempts state' = generation_attempts state + 1"
    and "transform_attempts state' = transform_attempts state"
    and "total_iterations state' = total_iterations state + 1"
    and "fallback_type state' = ''''"
    and "\<not> max_iterations_reached state'"
    and "\<not> no_relevant_docs_fallback state'"
    and "calls' = calls @ [GeneratorCall (format_docs (documents state)) (original_question state)]"
  using assms by (auto simp: generate_def Let_def split: sum.splits)

lemma transform_query_fields:
  assumes "transform_query w state calls = Inr (state', calls')"
  shows "question_rewriter_invoke w (length calls) (model_config state) (question state)
           = Inr (question state')"
    and "original_question state' = original_question state"
    and "generation state' = generation state"
    and "documents state' = documents state"
    and "generation_attempts state' = generation_attempts state"
    and "transform_attempts state' = transform_attempts state + 1"
    and "total_iterations state' = total_iterations state + 1"
    and "fallback_type state' = ''''"
    and "\<not> max_iterations_reached state'"
    and "\<not> no_relevant_docs_fallback state'"
    and "calls' = calls @ [RewriterCall (question state)]"
  using assms by (auto simp: transform_query_def Let_def split: sum.splits)

lemma generate_no_docs_fallback_fields:
  assumes "generate_no_docs_fallback w state calls = Inr (state', calls')"
  shows "question state' = question state"
    and "original_question state' = original_question state"
    and "documents state' = []"
    and "generation_attempts state' = 1"
    and "transform_attempts state' = transform_attempts state"
    and "total_iterations state' = total_iterations state + 1"
    and "fallback_type state' = ''no_relevant_docs''"
    and "max_iterations_reached state'"
    and "no_relevant_docs_fallback state'"
    and "calls' = calls @ [PureLLMCall (question state)]"
  using assms by (auto simp: generate_no_docs_fallback_def Let_def split: sum.splits)

lemma mark_max_iterations_fields:
  "question (mark_max_iterations state) = question state"
  "original_question (mark_max_iterations state) = original_question state"
  "generation (mark_max_iterations state) = generation state"
  "documents (mark_max_iterations state) = documents state"
  "generation_attempts (mark_max_iterations state) = generation_attempts state"
  "transform_attempts (mark_max_iterations state) = transform_attempts state"
  "total_iterations (mark_max_iterations state) = total_iterations state"
  "fallback_type (mark_max_iterations state) = ''max_iterations''"
  "max_iterations_reached (mark_max_iterations state)"
  "\<not> no_relevant_docs_fallback (mark_max_iterations state)"
  by (simp_all add: mark_max_iterations_def)

subsection \<open>C8: the iteration counter\<close>

text \<open>
  C8 (corrected). The claim: every node execution that is one step of work, the fallback
  node among them, increases \<^verbatim>\<open>total_iterations\<close> by exactly 1. The fallback node
  \<^verbatim>\<open>mark_max_iterations\<close> copies the state and sets the three outcome fields only. In the
  execution below the hallucination grader never accepts the answer: five nodes run
  (retrieve, grade_documents, generate, generate, fallback) and the counter ends at 4.
\<close>

theorem fallback_keeps_total_iterations:
  "fst (run_graph default_settings ungrounded_world 20 Retrieve (initial_state ''join?'' Map.empty []) [])
     = [Retrieve, Grade_documents, Generate, Generate, Fallback] \<and>
   map_option total_iterations
     (final_state (run_graph default_settings ungrounded_world 20 Retrieve
        (initial_state ''join?'' Map.empty []) [])) = Some 4"
  by (simp add: eval_defs ungrounded_world_def final_state_def)

text \<open>
  C8 as amended: every execution of retrieve, grade_documents, generate, transform_query
  and no_docs_fallback that returns increases \<^verbatim>\<open>total_iterations\<close> by exactly 1, and an
  execution of the fallback node leaves it as it is.
\<close>

theorem total_iterations_per_node:
  assumes "run_node cfg w n state calls = Inr (state', calls')"
  shows "total_iterations state' = total_iterations state + (if n = Fallback then 0 else 1)"
proof (cases n)
  case Retrieve
  with assms have "retrieve cfg w state calls = (state', calls')"
    by (simp add: run_node_def)
  then show ?thesis using Retrieve by (simp add: retrieve_fields)
next
  case Grade_documents
  with assms show ?thesis by (simp add: run_node_def grade_documents_fields)
next
  case Generate
  with assms show ?thesis by (simp add: run_node_def generate_fields)
next
  case Transform_query
  with assms show ?thesis by (simp add: run_node_def transform_query_fields)
next
  case Fallback
  with assms show ?thesis by (auto simp: run_node_def mark_max_iterations_fields)
next
  case No_docs_fallback
  with assms show ?thesis by (simp add: run_node_def generate_no_docs_fallback_fields)
qed

theorem total_iterations_per_node_witness:
  "\<exists>state' calls' state'' calls''.
     run_node default_settings no_documents_world Transform_query
       (initial_state ''join?'' Map.empty []) [] = Inr (state', calls') \<and>
     total_iterations state' = 1 \<and>
     run_node default_settings no_documents_world Fallback state' calls' = Inr (state'', calls'') \<and>
     total_iterations state'' = 1"
proof -
  obtain state' calls' where r1:
    "run_node default_settings no_documents_world Transform_query
       (initial_state ''join?'' Map.empty []) [] = Inr (state', calls')"
    by (simp add: run_node_def transform_query_def no_documents_world_def stub_world_simps Let_def)
  obtain state'' calls'' where r2:
    "run_node default_settings no_documents_world Fallback state' calls' = Inr (state'', calls'')"
    by (simp add: run_node_def)
  from total_iterations_per_node [OF r1] have t1: "total_iterations state' = 1"
    by (simp add: initial_state_def)
  from total_iterations_per_node [OF r2] t1 have t2: "total_iterations state'' = 1"
    by simp
  from r1 r2 t1 t2 show ?thesis by blast
qed

subsection \<open>C4: the budget check comes first\<close>

lemma check_iteration_limits_iff:
  "check_iteration_limits cfg state \<longleftrightarrow>
     generation_attempts state \<ge> max_generation_retries cfg \<or>
     transform_attempts state \<ge> max_transform_retries cfg \<or>
     total_iterations state \<ge> max_total_iterations cfg"
  by (simp add: check_iteration_limits_def)

text \<open>
  C4 (confirmed). \<^verbatim>\<open>grade_generation_v_documents_and_question\<close> tests the three budgets
  before any grader: when one of them is used up it returns \<^verbatim>\<open>max_iterations\<close> (the edge
  to the fallback node) and the log of calls is the one it was given, so neither the
  hallucination grader nor the answer grader was invoked. Otherwise, when the
  hallucination grader returns not grounded, the decision is \<^verbatim>\<open>not supported\<close>
  (regenerate) unless \<^verbatim>\<open>generation_attempts >= max_generation_retries\<close>, and
  \<^verbatim>\<open>max_iterations\<close> in that case.
\<close>

theorem budget_check_precedes_graders:
  "(check_iteration_limits cfg state \<longleftrightarrow>
      generation_attempts state \<ge> max_generation_retries cfg \<or>
      transform_attempts state \<ge> max_transform_retries cfg \<or>
      total_iterations state \<ge> max_total_iterations cfg) \<and>
   (check_iteration_limits cfg state \<longrightarrow>
      grade_generation_v_documents_and_question cfg w state calls = Inr (Max_iterations, calls)) \<and>
   (\<not> check_iteration_limits cfg state \<longrightarrow>
    grade_hallucination cfg w state calls = Inr (False, calls1) \<longrightarrow>
      grade_generation_v_documents_and_question cfg w state calls =
        Inr (if generation_attempts state \<ge> max_generation_retries cfg
             then Max_iterations else Not_supported, calls1))"
  by (simp add: check_iteration_limits_iff grade_generation_v_documents_and_question_def)

text \<open>
  The witness: after the second generation under the default settings the budget check
  sends the loop to the fallback with no call logged, although the stub graders would
  accept the answer; after the first generation the check passes, the stub hallucination
  grader rejects the answer with one call, and the decision is to regenerate.
\<close>

theorem budget_check_precedes_graders_witness:
  "check_iteration_limits default_settings
     ((initial_state ''join?'' Map.empty [])\<lparr> documents := [join_doc], generation_attempts := 2 \<rparr>) \<and>
   grade_generation_v_documents_and_question default_settings no_documents_world
     ((initial_state ''join?'' Map.empty [])\<lparr> documents := [join_doc], generation_attempts := 2 \<rparr>) []
     = Inr (Max_iterations, []) \<and>
   \<not> check_iteration_limits default_settings
     ((initial_state ''join?'' Map.empty [])\<lparr> documents := [join_doc], generation_attempts := 1 \<rparr>) \<and>
   grade_hallucination default_settings ungrounded_world
     ((initial_state ''join?'' Map.empty [])\<lparr> documents := [join_doc], generation_attempts := 1 \<rparr>) []
     = Inr (False, [HallucinationGraderCall ''JOIN b ON a.id = b.id'' '''']) \<and>
   grade_generation_v_documents_and_question default_settings ungrounded_world
     ((initial_state ''join?'' Map.empty [])\<lparr> documents := [join_doc], generation_attempts := 1 \<rparr>) []
     = Inr (Not_supported, [HallucinationGraderCall ''JOIN b ON a.id = b.id'' ''''])"
proof -
  let ?s2 = "(initial_state ''join?'' Map.empty [])\<lparr> documents := [join_doc], generation_attempts := 2 \<rparr>"
  let ?s1 = "(initial_state ''join?'' Map.empty [])\<lparr> documents := [join_doc], generation_attempts := 1 \<rparr>"
  have c2: "check_iteration_limits default_settings ?s2"
    by (simp add: check_iteration_limits_def default_settings_simps initial_state_def)
  have c1: "\<not> check_iteration_limits default_settings ?s1"
    by (simp add: check_iteration_limits_def default_settings_simps initial_state_def)
  have h1: "grade_hallucination default_settings ungrounded_world ?s1 []
              = Inr (False, [HallucinationGraderCall ''JOIN b ON a.id = b.id'' ''''])"
    by (simp add: eval_defs ungrounded_world_def)
  from budget_check_precedes_graders [of default_settings ?s2 no_documents_world "[]"] c2
  have d2: "grade_generation_v_documents_and_question default_settings no_documents_world ?s2 []
              = Inr (Max_iterations, [])"
    by blast
  from budget_check_precedes_graders [of default_settings ?s1 ungrounded_world "[]"] c1 h1
  have d1: "grade_generation_v_documents_and_question default_settings ungrounded_world ?s1 []
              = Inr (if generation_attempts ?s1 \<ge> max_generation_retries default_settings
                     then Max_iterations else Not_supported,
                     [HallucinationGraderCall ''JOIN b ON a.id = b.id'' ''''])"
    by blast
  have d1': "grade_generation_v_documents_and_question default_settings ungrounded_world ?s1 []
              = Inr (Not_supported, [HallucinationGraderCall ''JOIN b ON a.id = b.id'' ''''])"
    using d1 by (simp add: default_settings_simps initial_state_def)
  from c2 d2 c1 h1 d1' show ?thesis by blast
qed

subsection \<open>C2: the outcome of a final state\<close>

lemma step_END:
  assumes "step cfg w n state calls = Inr (END, state', calls')"
  shows "(n = Generate \<and> normal_success state') \<or>
         (n = Fallback \<and> max_iterations_outcome state') \<or>
         (n = No_docs_fallback \<and> no_docs_outcome state')"
proof (cases n)
  case Retrieve
  with assms show ?thesis by (simp add: step_def run_node_def route_def split: prod.splits)
next
  case Grade_documents
  with assms show ?thesis
    by (auto simp: step_def run_node_def route_def split: sum.splits prod.splits documents_decision.splits)
next
  case Generate
  with assms obtain calls1 where "generate cfg w state calls = Inr (state', calls1)"
    by (auto simp: step_def run_node_def split: sum.splits prod.splits)
  then have "normal_success state'"
    by (simp add: normal_success_def generate_fields)
  with Generate show ?thesis by simp
next
  case Transform_query
  with assms show ?thesis
    by (auto simp: step_def run_node_def route_def split: sum.splits prod.splits)
next
  case Fallback
  with assms have "state' = mark_max_iterations state"
    by (auto simp: step_def run_node_def route_def)
  then have "max_iterations_outcome state'"
    by (simp add: max_iterations_outcome_def mark_max_iterations_fields)
  with Fallback show ?thesis by simp
next
  case No_docs_fallback
  with assms obtain calls1 where "generate_no_docs_fallback w state calls = Inr (state', calls1)"
    by (auto simp: step_def run_node_def split: sum.splits prod.splits)
  then have "no_docs_outcome state'"
    by (simp add: no_docs_outcome_def generate_no_docs_fallback_fields)
  with No_docs_fallback show ?thesis by simp
qed

lemma run_graph_Completed:
  "run_graph cfg w limit n state calls = (trace, Completed state' calls') \<Longrightarrow>
   trace \<noteq> [] \<and>
   ((last trace = Generate \<and> normal_success state') \<or>
    (last trace = Fallback \<and> max_iterations_outcome state') \<or>
    (last trace = No_docs_fallback \<and> no_docs_outcome state'))"
proof (induction limit arbitrary: n state calls trace)
  case 0
  then show ?case by simp
next
  case (Suc limit)
  show ?case
  proof (cases "step cfg w n state calls")
    case (Inl e)
    with Suc.prems show ?thesis by simp
  next
    case (Inr r)
    then obtain t s1 c1 where r: "step cfg w n state calls = Inr (t, s1, c1)"
      by (cases r) auto
    show ?thesis
    proof (cases t)
      case END
      with r Suc.prems have "trace = [n]" "state' = s1" by simp_all
      with step_END [of cfg w n state calls s1 c1] r END show ?thesis by auto
    next
      case (Node n')
      obtain tr res where rec: "run_graph cfg w limit n' s1 c1 = (tr, res)"
        by (cases "run_graph cfg w limit n' s1 c1") auto
      with r Node Suc.prems have eq: "trace = n # tr" "res = Completed state' calls'"
        by simp_all
      from Suc.IH [of n' s1 c1 tr] rec eq have
        "tr \<noteq> [] \<and>
         ((last tr = Generate \<and> normal_success state') \<or>
          (last tr = Fallback \<and> max_iterations_outcome state') \<or>
          (last tr = No_docs_fallback \<and> no_docs_outcome state'))"
        by simp
      with eq show ?thesis by simp
    qed
  qed
qed

text \<open>
  C2 (corrected). The claim: at a final state exactly one of normal success,
  \<^verbatim>\<open>no_relevant_docs_fallback = true\<close> and \<^verbatim>\<open>max_iterations_reached = true\<close> holds, and the
  two booleans are never both true, on the no-docs path as on the others. The node
  \<^verbatim>\<open>generate_no_docs_fallback\<close> sets both to \<^verbatim>\<open>True\<close>: under the default settings, with a
  retriever that finds nothing, the execution ends on the no-docs path with both flags
  set.
\<close>

theorem no_docs_path_sets_both_flags:
  "fst (run_graph default_settings no_documents_world 20 Retrieve (initial_state ''join?'' Map.empty []) [])
     = [Retrieve, Grade_documents, Transform_query, Retrieve, Grade_documents, Transform_query,
        Retrieve, Grade_documents, No_docs_fallback] \<and>
   map_option (\<lambda>s. (max_iterations_reached s, no_relevant_docs_fallback s, fallback_type s))
     (final_state (run_graph default_settings no_documents_world 20 Retrieve
        (initial_state ''join?'' Map.empty []) [])) = Some (True, True, ''no_relevant_docs'')"
  by (simp add: eval_defs no_documents_world_def final_state_def)

text \<open>
  C2 as amended: at every final state exactly one of three outcomes holds, and
  \<^verbatim>\<open>fallback_type\<close> tells them apart: normal success (the last node is generate,
  \<^verbatim>\<open>fallback_type\<close> is empty and both flags are false), the max-iterations fallback (the
  last node is fallback, \<^verbatim>\<open>fallback_type\<close> is \<^verbatim>\<open>max_iterations\<close>, \<^verbatim>\<open>max_iterations_reached\<close>
  is true and \<^verbatim>\<open>no_relevant_docs_fallback\<close> is false), or the no-docs fallback (the last
  node is no_docs_fallback, \<^verbatim>\<open>fallback_type\<close> is \<^verbatim>\<open>no_relevant_docs\<close> and both flags are
  true). The two flags are both true on the no-docs path and on no other.
\<close>

theorem final_state_outcome:
  assumes "run_graph cfg w limit Retrieve (initial_state q mc ids) [] = (trace, Completed state' calls')"
  shows "(last trace = Generate \<and> normal_success state' \<and>
            \<not> max_iterations_outcome state' \<and> \<not> no_docs_outcome state') \<or>
         (last trace = Fallback \<and> max_iterations_outcome state' \<and>
            \<not> normal_success state' \<and> \<not> no_docs_outcome state') \<or>
         (last trace = No_docs_fallback \<and> no_docs_outcome state' \<and>
            \<not> normal_success state' \<and> \<not> max_iterations_outcome state')"
proof -
  have excl: "\<not> (normal_success state' \<and> max_iterations_outcome state')"
    "\<not> (normal_success state' \<and> no_docs_outcome state')"
    "\<not> (max_iterations_outcome state' \<and> no_docs_outcome state')"
    by (auto simp: normal_success_def max_iterations_outcome_def no_docs_outcome_def)
  from run_graph_Completed [OF assms] excl show ?thesis by blast
qed

theorem final_state_outcome_witness:
  "\<exists>trace state' calls'.
     run_graph default_settings no_documents_world 20 Retrieve (initial_state ''join?'' Map.empty []) []
       = (trace, Completed state' calls') \<and>
     last trace = No_docs_fallback \<and> no_docs_outcome state' \<and>
     max_iterations_reached state' \<and> no_relevant_docs_fallback state' \<and>
     \<not> normal_success state' \<and> \<not> max_iterations_outcome state'"
proof -
  obtain trace state' calls' where run:
    "run_graph default_settings no_documents_world 20 Retrieve (initial_state ''join?'' Map.empty []) []
       = (trace, Completed state' calls')"
    and last: "last trace = No_docs_fallback"
    by (simp add: eval_defs no_documents_world_def)
  from final_state_outcome [OF run] last
  have "no_docs_outcome state' \<and> \<not> normal_success state' \<and> \<not> max_iterations_outcome state'"
    by auto
  then show ?thesis using run last by (auto simp: no_docs_outcome_def)
qed

subsection \<open>The steps of the graph, node by node\<close>

lemma step_Retrieve:
  "step cfg w Retrieve state calls =
     Inr (Node Grade_documents, fst (retrieve cfg w state calls), snd (retrieve cfg w state calls))"
  by (simp add: step_def run_node_def route_def split: prod.splits)

lemma step_Fallback:
  "step cfg w Fallback state calls = Inr (END, mark_max_iterations state, calls)"
  by (simp add: step_def run_node_def route_def)

lemma step_Transform_query:
  assumes "step cfg w Transform_query state calls = Inr (t, state', calls')"
  shows "transform_query w state calls = Inr (state', calls') \<and> t = Node Retrieve"
  using assms by (auto simp: step_def run_node_def route_def split: sum.splits prod.splits)

lemma step_No_docs_fallback:
  assumes "step cfg w No_docs_fallback state calls = Inr (t, state', calls')"
  shows "generate_no_docs_fallback w state calls = Inr (state', calls') \<and> t = END"
  using assms by (auto simp: step_def run_node_def route_def split: sum.splits prod.splits)




subsection \<open>C1: termination\<close>



lemma grade_hallucination_returns:
  "hallucination_batch_size cfg \<noteq> 0 \<Longrightarrow> \<exists>r. grade_hallucination cfg w state calls = Inr r"
  by (auto simp: grade_hallucination_def Let_def)

lemma grade_documents_returns:
  "document_grading_batch_size cfg \<noteq> 0 \<Longrightarrow> \<exists>r. grade_documents cfg w state calls = Inr r"
  by (auto simp: grade_documents_def grade_all_docs_def Let_def)

lemma decision_returns:
  assumes "never_raises cfg w"
  shows "\<exists>r. grade_generation_v_documents_and_question cfg w state calls = Inr r"
proof (cases "check_iteration_limits cfg state")
  case True
  then show ?thesis by (simp add: grade_generation_v_documents_and_question_def)
next
  case False
  from assms have "hallucination_batch_size cfg \<noteq> 0" by (simp add: never_raises_def)
  from grade_hallucination_returns [OF this]
  obtain grounded calls1 where h: "grade_hallucination cfg w state calls = Inr (grounded, calls1)"
    by fastforce
  from assms obtain score where
    "answer_grader_invoke w (length calls1) (question state) (generation state) = Inr score"
    unfolding never_raises_def by blast
  then have "\<exists>r. answer_grader w state calls1 = Inr r"
    by (simp add: answer_grader_def prepare_input_def)
  with False h show ?thesis
    by (auto simp: grade_generation_v_documents_and_question_def)
qed

lemma step_returns:
  assumes "never_raises cfg w"
  shows "\<exists>r. step cfg w n state calls = Inr r"
proof (cases n)
  case Retrieve
  then show ?thesis by (simp add: step_Retrieve)
next
  case Grade_documents
  from assms have "document_grading_batch_size cfg \<noteq> 0" by (simp add: never_raises_def)
  from grade_documents_returns [OF this]
  obtain r where "grade_documents cfg w state calls = Inr r" by blast
  with Grade_documents show ?thesis
    by (cases r) (simp add: step_def run_node_def route_def split: documents_decision.splits)
next
  case Generate
  from assms obtain gen where
    "rag_chain_invoke w (length calls)
       (if generation_attempts state + 1 > 1 \<and> enable_retry_variation cfg
        then (model_config state)(''temperature'' \<mapsto>
               min ((case model_config state ''temperature'' of None \<Rightarrow> 0 | Some t \<Rightarrow> t)
                    + real_of_int (generation_attempts state + 1 - 1) * retry_temperature_increment cfg) 1)
        else model_config state)
       (format_docs (documents state)) (original_question state) = Inr gen"
    unfolding never_raises_def by blast
  then obtain s1 c1 where g: "generate cfg w state calls = Inr (s1, c1)"
    by (simp add: generate_def Let_def)
  from decision_returns [OF assms]
  obtain d c2 where "grade_generation_v_documents_and_question cfg w s1 c1 = Inr (d, c2)"
    by fastforce
  with g Generate show ?thesis
    by (simp add: step_def run_node_def route_def split: generation_decision.splits)
next
  case Transform_query
  from assms obtain better where
    "question_rewriter_invoke w (length calls) (model_config state) (question state) = Inr better"
    unfolding never_raises_def by blast
  with Transform_query show ?thesis
    by (simp add: step_def run_node_def route_def transform_query_def Let_def)
next
  case Fallback
  then show ?thesis by (simp add: step_Fallback)
next
  case No_docs_fallback
  from assms obtain gen where
    "llm_chain_invoke w (length calls) (model_config state) (question state) = Inr gen"
    unfolding never_raises_def by blast
  with No_docs_fallback show ?thesis
    by (simp add: step_def run_node_def route_def generate_no_docs_fallback_def Let_def)
qed



text \<open>
  The executions in which retrieval and grading never leave a document: from retrieve
  with \<open>k\<close> rewrites still allowed, the loop runs \<open>k\<close> times through retrieve,
  grade_documents and transform_query and then ends with retrieve, grade_documents and
  no_docs_fallback, whatever \<^verbatim>\<open>max_total_iterations\<close> is: \<open>3 * k + 3\<close> nodes.
\<close>

lemma empty_run_head:
  assumes nd: "no_relevant_documents cfg w"
  shows "\<exists>s1 c1 s2 c2.
           step cfg w Retrieve state calls = Inr (Node Grade_documents, s1, c1) \<and>
           step cfg w Grade_documents s1 c1 =
             Inr (Node (if transform_attempts state \<ge> max_transform_retries cfg
                        then No_docs_fallback else Transform_query), s2, c2) \<and>
           transform_attempts s2 = transform_attempts state \<and>
           total_iterations s2 = total_iterations state + 2"
proof -
  obtain s1 c1 where r: "retrieve cfg w state calls = (s1, c1)"
    by (cases "retrieve cfg w state calls") auto
  from nd r obtain s2 c2 where g: "grade_documents cfg w s1 c1 = Inr (s2, c2)"
    and e: "documents s2 = []"
    unfolding no_relevant_documents_def by (metis fst_conv snd_conv)
  note f1 = retrieve_fields [OF r]
  note f2 = grade_documents_fields [OF g]
  have "step cfg w Retrieve state calls = Inr (Node Grade_documents, s1, c1)"
    using r by (simp add: step_Retrieve)
  moreover have "step cfg w Grade_documents s1 c1 =
      Inr (Node (if transform_attempts state \<ge> max_transform_retries cfg
                 then No_docs_fallback else Transform_query), s2, c2)"
    using g e f1 f2 by (simp add: step_def run_node_def route_def decide_to_generate_def)
  moreover have "transform_attempts s2 = transform_attempts state"
    "total_iterations s2 = total_iterations state + 2"
    using f1 f2 by simp_all
  ultimately show ?thesis by blast
qed

lemma empty_run:
  assumes nr: "never_raises cfg w" and nd: "no_relevant_documents cfg w"
  shows "int k = max_transform_retries cfg - transform_attempts state \<Longrightarrow>
         3 * k + 3 \<le> limit \<Longrightarrow>
         \<exists>state' calls'.
           run_graph cfg w limit Retrieve state calls =
             (concat (replicate k [Retrieve, Grade_documents, Transform_query])
                @ [Retrieve, Grade_documents, No_docs_fallback],
              Completed state' calls') \<and>
           transform_attempts state' = max_transform_retries cfg \<and>
           total_iterations state' = total_iterations state + 3 * int k + 3 \<and>
           no_docs_outcome state'"
proof (induction k arbitrary: state calls limit)
  case 0
  define l where "l = limit - 3"
  with 0 have limit: "limit = Suc (Suc (Suc l))" by simp
  from 0 have full: "transform_attempts state \<ge> max_transform_retries cfg" by simp
  from empty_run_head [OF nd, of state calls] full
  obtain s1 c1 s2 c2 where
    st1: "step cfg w Retrieve state calls = Inr (Node Grade_documents, s1, c1)" and
    st2: "step cfg w Grade_documents s1 c1 = Inr (Node No_docs_fallback, s2, c2)" and
    t2: "transform_attempts s2 = transform_attempts state" and
    i2: "total_iterations s2 = total_iterations state + 2"
    by auto
  from step_returns [OF nr, of No_docs_fallback s2 c2]
  obtain t s3 c3 where st3: "step cfg w No_docs_fallback s2 c2 = Inr (t, s3, c3)"
    by fastforce
  from step_No_docs_fallback [OF st3]
  have g3: "generate_no_docs_fallback w s2 c2 = Inr (s3, c3)" and t: "t = END"
    by simp_all
  note f3 = generate_no_docs_fallback_fields [OF g3]
  have "run_graph cfg w limit Retrieve state calls =
          ([Retrieve, Grade_documents, No_docs_fallback], Completed s3 c3)"
    using limit st1 st2 st3 t by simp
  moreover have "transform_attempts s3 = max_transform_retries cfg"
    using f3 t2 0 by simp
  moreover have "total_iterations s3 = total_iterations state + 3"
    using f3 i2 by simp
  moreover have "no_docs_outcome s3"
    using f3 by (simp add: no_docs_outcome_def)
  ultimately show ?case by simp
next
  case (Suc k)
  define l where "l = limit - 3"
  with Suc.prems have limit: "limit = Suc (Suc (Suc l))" and l: "3 * k + 3 \<le> l"
    by simp_all
  from Suc.prems have room: "\<not> transform_attempts state \<ge> max_transform_retries cfg" by simp
  from empty_run_head [OF nd, of state calls] room
  obtain s1 c1 s2 c2 where
    st1: "step cfg w Retrieve state calls = Inr (Node Grade_documents, s1, c1)" and
    st2: "step cfg w Grade_documents s1 c1 = Inr (Node Transform_query, s2, c2)" and
    t2: "transform_attempts s2 = transform_attempts state" and
    i2: "total_iterations s2 = total_iterations state + 2"
    by auto
  from step_returns [OF nr, of Transform_query s2 c2]
  obtain t s3 c3 where st3: "step cfg w Transform_query s2 c2 = Inr (t, s3, c3)"
    by fastforce
  from step_Transform_query [OF st3]
  have g3: "transform_query w s2 c2 = Inr (s3, c3)" and t: "t = Node Retrieve"
    by simp_all
  note f3 = transform_query_fields [OF g3]
  have k: "int k = max_transform_retries cfg - transform_attempts s3"
    using f3 t2 Suc.prems by simp
  from Suc.IH [OF k l, of c3]
  obtain state' calls' where
    run: "run_graph cfg w l Retrieve s3 c3 =
            (concat (replicate k [Retrieve, Grade_documents, Transform_query])
               @ [Retrieve, Grade_documents, No_docs_fallback],
             Completed state' calls')" and
    t': "transform_attempts state' = max_transform_retries cfg" and
    i': "total_iterations state' = total_iterations s3 + 3 * int k + 3" and
    o': "no_docs_outcome state'"
    by blast
  have "run_graph cfg w limit Retrieve state calls =
          (concat (replicate (Suc k) [Retrieve, Grade_documents, Transform_query])
             @ [Retrieve, Grade_documents, No_docs_fallback],
           Completed state' calls')"
    using limit st1 st2 st3 t run by simp
  moreover have "total_iterations state' = total_iterations state + 3 * int (Suc k) + 3"
    using i' f3 i2 by simp
  ultimately show ?case using t' o' by blast
qed

lemma retrieve_collections_empty:
  "(\<And>n coll_id k q. collection_retriever_invoke w n coll_id k q = Inr []) \<Longrightarrow>
   fst (retrieve_collections cfg w q ids calls) = []"
  by (induction ids arbitrary: calls) (simp_all add: split_beta)

lemma no_documents_world_retrieves_nothing:
  "documents (fst (retrieve cfg no_documents_world state calls)) = []"
proof -
  have "fst (retrieve_collections cfg no_documents_world q ids calls) = []" for q ids calls
    by (rule retrieve_collections_empty) (simp add: no_documents_world_def stub_world_simps)
  then show ?thesis
    by (simp add: retrieve_def Let_def split_beta normalize_raw_def
          no_documents_world_def stub_world_simps)
qed

lemma no_documents_world_no_relevant:
  assumes "document_grading_batch_size cfg \<noteq> 0"
  shows "no_relevant_documents cfg no_documents_world"
  unfolding no_relevant_documents_def
proof (intro allI)
  fix state calls
  let ?s1 = "fst (retrieve cfg no_documents_world state calls)"
  let ?c1 = "snd (retrieve cfg no_documents_world state calls)"
  have e: "documents ?s1 = []" by (rule no_documents_world_retrieves_nothing)
  from assms e show "\<exists>state' calls'.
      grade_documents cfg no_documents_world ?s1 ?c1 = Inr (state', calls') \<and> documents state' = []"
    by (simp add: grade_documents_def grade_all_docs_def Let_def grade_batches_stop)
qed

lemma no_documents_world_never_raises:
  assumes "document_grading_batch_size cfg \<noteq> 0" and "hallucination_batch_size cfg \<noteq> 0"
  shows "never_raises cfg no_documents_world"
  using assms by (simp add: never_raises_def no_documents_world_def stub_world_simps)

text \<open>
  No constant bounds the number of node executions above \<^verbatim>\<open>max_total_iterations\<close>: for
  every \<open>c\<close> there are a configuration and collaborators, none of which raises, whose
  execution completes more than \<open>max_total_iterations + c\<close> nodes.
\<close>

lemma no_constant_above_max_total_iterations:
  "\<exists>cfg w trace state' calls'.
     never_raises cfg w \<and>
     run_graph cfg w (3 * c + 3) Retrieve (initial_state q mc ids) [] = (trace, Completed state' calls') \<and>
     length trace > nat (max_total_iterations cfg) + c"
proof -
  let ?cfg = "default_settings\<lparr> max_transform_retries := int c, max_total_iterations := 0 \<rparr>"
  have b: "document_grading_batch_size ?cfg \<noteq> 0" "hallucination_batch_size ?cfg \<noteq> 0"
    by (simp_all add: default_settings_def)
  have nr: "never_raises ?cfg no_documents_world"
    using b by (rule no_documents_world_never_raises)
  have nd: "no_relevant_documents ?cfg no_documents_world"
    using b(1) by (rule no_documents_world_no_relevant)
  have k: "int c = max_transform_retries ?cfg - transform_attempts (initial_state q mc ids)"
    by (simp add: initial_state_def)
  from empty_run [OF nr nd k, of "3 * c + 3" "[]"]
  obtain state' calls' where
    run: "run_graph ?cfg no_documents_world (3 * c + 3) Retrieve (initial_state q mc ids) [] =
            (concat (replicate c [Retrieve, Grade_documents, Transform_query])
               @ [Retrieve, Grade_documents, No_docs_fallback],
             Completed state' calls')"
    by auto
  have "length (concat (replicate c [Retrieve, Grade_documents, Transform_query])
                  @ [Retrieve, Grade_documents, No_docs_fallback]) = 3 * c + 3"
    by (induction c) simp_all
  then have "length (concat (replicate c [Retrieve, Grade_documents, Transform_query])
                  @ [Retrieve, Grade_documents, No_docs_fallback])
               > nat (max_total_iterations ?cfg) + c"
    by simp
  with nr run show ?thesis by blast
qed




subsection \<open>C5: the decision after document grading\<close>



subsection \<open>C3 and C9: which question the model calls receive\<close>

text \<open>
  No node changes \<^verbatim>\<open>original_question\<close>, and only \<^verbatim>\<open>transform_query\<close> changes
  \<^verbatim>\<open>question\<close>.
\<close>

lemma run_node_questions:
  assumes "run_node cfg w n state calls = Inr (state', calls')"
  shows "original_question state' = original_question state"
    and "n \<noteq> Transform_query \<Longrightarrow> question state' = question state"
    and "n = Transform_query \<Longrightarrow>
           question_rewriter_invoke w (length calls) (model_config state) (question state)
             = Inr (question state')"
proof -
  have "original_question state' = original_question state \<and>
        (n \<noteq> Transform_query \<longrightarrow> question state' = question state) \<and>
        (n = Transform_query \<longrightarrow>
           question_rewriter_invoke w (length calls) (model_config state) (question state)
             = Inr (question state'))"
  proof (cases n)
    case Retrieve
    with assms have "retrieve cfg w state calls = (state', calls')" by (simp add: run_node_def)
    from retrieve_fields [OF this] Retrieve show ?thesis by simp
  next
    case Grade_documents
    with assms show ?thesis by (simp add: run_node_def grade_documents_fields)
  next
    case Generate
    with assms show ?thesis by (simp add: run_node_def generate_fields)
  next
    case Transform_query
    with assms show ?thesis by (simp add: run_node_def transform_query_fields)
  next
    case Fallback
    with assms show ?thesis by (auto simp: run_node_def mark_max_iterations_fields)
  next
    case No_docs_fallback
    with assms show ?thesis by (simp add: run_node_def generate_no_docs_fallback_fields)
  qed
  then show "original_question state' = original_question state"
    and "n \<noteq> Transform_query \<Longrightarrow> question state' = question state"
    and "n = Transform_query \<Longrightarrow>
           question_rewriter_invoke w (length calls) (model_config state) (question state)
             = Inr (question state')"
    by simp_all
qed

lemma step_original_question:
  assumes "step cfg w n state calls = Inr (t, state', calls')"
  shows "original_question state' = original_question state"
proof -
  from assms obtain calls1 where "run_node cfg w n state calls = Inr (state', calls1)"
    by (auto simp: step_def split: sum.splits prod.splits)
  then show ?thesis by (rule run_node_questions(1))
qed

lemma run_graph_original_question:
  "run_graph cfg w limit n state calls = (trace, Completed state' calls') \<Longrightarrow>
   original_question state' = original_question state"
proof (induction limit arbitrary: n state calls trace)
  case 0
  then show ?case by simp
next
  case (Suc limit)
  show ?case
  proof (cases "step cfg w n state calls")
    case (Inl e)
    with Suc.prems show ?thesis by simp
  next
    case (Inr r)
    then obtain t s1 c1 where r: "step cfg w n state calls = Inr (t, s1, c1)"
      by (cases r) auto
    note o = step_original_question [OF r]
    show ?thesis
    proof (cases t)
      case END
      with r Suc.prems o show ?thesis by simp
    next
      case (Node n')
      obtain tr res where rec: "run_graph cfg w limit n' s1 c1 = (tr, res)"
        by (cases "run_graph cfg w limit n' s1 c1") auto
      with r Node Suc.prems have "res = Completed state' calls'" by simp
      with rec Suc.IH [of n' s1 c1 tr] o show ?thesis by simp
    qed
  qed
qed

text \<open>
  The generator is called with \<^verbatim>\<open>original_question\<close>, which is the part of C3 that holds;
  the no-docs fallback is called with \<^verbatim>\<open>question\<close>.
\<close>

lemma generate_asks_original_question:
  "generate cfg w state calls = Inr (state', calls') \<Longrightarrow>
   calls' = calls @ [GeneratorCall (format_docs (documents state)) (original_question state)]"
  by (rule generate_fields(10))

lemma no_docs_fallback_asks_current_question:
  "generate_no_docs_fallback w state calls = Inr (state', calls') \<Longrightarrow>
   calls' = calls @ [PureLLMCall (question state)]"
  by (rule generate_no_docs_fallback_fields(10))

text \<open>
  C3 (code bug). The claim: in every execution with a rewrite, the question passed to
  the final answer-generating model call is the initial \<^verbatim>\<open>original_question\<close>, on the
  no-docs fallback path as on the others. \<^verbatim>\<open>generate\<close> does pass \<^verbatim>\<open>original_question\<close>;
  \<^verbatim>\<open>generate_no_docs_fallback\<close> passes \<^verbatim>\<open>state["question"]\<close>, which the rewriter has
  replaced. Under the default settings, with a retriever that finds nothing and the
  question \<^verbatim>\<open>join?\<close>, the rewriter runs twice and the last call of the execution, the one
  that produces the answer, asks the rewritten question \<^verbatim>\<open>join?++\<close>, while
  \<^verbatim>\<open>original_question\<close> is still \<^verbatim>\<open>join?\<close>.
\<close>

theorem no_docs_fallback_answers_rewritten_question:
  "map_option last
     (final_calls (run_graph default_settings no_documents_world 20 Retrieve
        (initial_state ''join?'' Map.empty []) [])) = Some (PureLLMCall ''join?++'') \<and>
   map_option (\<lambda>s. (original_question s, question s, generation s))
     (final_state (run_graph default_settings no_documents_world 20 Retrieve
        (initial_state ''join?'' Map.empty []) [])) = Some (''join?'', ''join?++'', ''G: join?++'')"
  by (simp add: eval_defs no_documents_world_def final_state_def final_calls_def)




subsection \<open>C10: the accept-as-is branch\<close>





subsection \<open>C6: the hallucination grader\<close>

lemma loop_batch:
  assumes "0 < bs" and "m * bs < length docs"
  shows "take (min (m * bs + bs) (length docs) - m * bs) (drop (m * bs) docs) = batch bs docs m"
proof (cases "m * bs + bs \<le> length docs")
  case True
  then show ?thesis by (simp add: batch_def min_def)
next
  case False
  then have "length (drop (m * bs) docs) \<le> bs" by simp
  with False show ?thesis by (simp add: batch_def min_def)
qed

lemma in_range_iff:
  assumes "0 < bs"
  shows "m * bs < length docs \<longleftrightarrow> m < num_batches bs docs"
proof -
  have "m < num_batches bs docs \<longleftrightarrow> Suc m \<le> (length docs + bs - 1) div bs"
    by (simp add: num_batches_def Suc_le_eq)
  also have "\<dots> \<longleftrightarrow> Suc m * bs \<le> length docs + bs - 1"
    using assms by (simp add: less_eq_div_iff_mult_less_eq)
  also have "\<dots> \<longleftrightarrow> m * bs < length docs"
    using assms by auto
  finally show ?thesis by simp
qed

text \<open>
  The loop from batch \<open>m\<close> on, when the first batch is checked at call number
  \<open>base\<close>: it stops at the first batch from \<open>m\<close> on that is grounded, and has then
  called the grader on the batches up to that one and on no other.
\<close>

lemma hallucination_batches_from:
  assumes bs: "0 < bs"
  shows "length calls = base + m \<Longrightarrow>
         hallucination_batches w docs gen bs (m * bs) calls =
           (case find (batch_grounded w bs docs gen base) [m..<num_batches bs docs] of
              None \<Rightarrow>
                (False, calls @ map (\<lambda>i. HallucinationGraderCall (format_docs (batch bs docs i)) gen)
                                  [m..<num_batches bs docs])
            | Some k \<Rightarrow>
                (True, calls @ map (\<lambda>i. HallucinationGraderCall (format_docs (batch bs docs i)) gen)
                                 [m..<Suc k]))"
proof (induction "num_batches bs docs - m" arbitrary: m calls)
  case 0
  then have nm: "\<not> m < num_batches bs docs" by simp
  then have "\<not> m * bs < length docs" by (simp add: in_range_iff [OF bs])
  then have stop: "hallucination_batches w docs gen bs (m * bs) calls = (False, calls)"
    by (rule hallucination_batches_stop)
  from nm have e: "[m..<num_batches bs docs] = []" by simp
  show ?case unfolding stop e by simp
next
  case (Suc d)
  let ?f = "\<lambda>i. HallucinationGraderCall (format_docs (batch bs docs i)) gen"
  let ?P = "batch_grounded w bs docs gen base"
  let ?nb = "num_batches bs docs"
  from Suc.hyps have m: "m < ?nb" by simp
  then have range: "m * bs < length docs" by (simp add: in_range_iff [OF bs])
  from m have upt: "[m..<?nb] = m # [Suc m..<?nb]" by (simp add: upt_conv_Cons)
  have next_start: "m * bs + bs = Suc m * bs" by simp
  from Suc.hyps have d: "d = ?nb - Suc m" by simp
  have len: "length (calls @ [?f m]) = base + Suc m" using Suc.prems by simp
  note IH = Suc.hyps(1) [OF d len]
  have unfold: "hallucination_batches w docs gen bs (m * bs) calls =
      (case hallucination_grader_invoke w (base + m) (format_docs (batch bs docs m)) gen of
         Inl e \<Rightarrow> hallucination_batches w docs gen bs (Suc m * bs) (calls @ [?f m])
       | Inr score \<Rightarrow>
           if lower score = ''yes'' then (True, calls @ [?f m])
           else hallucination_batches w docs gen bs (Suc m * bs) (calls @ [?f m]))"
  proof -
    note 1 = hallucination_batches_step [OF bs range, of w gen calls]
    note 2 = 1 [unfolded Let_def loop_batch [OF bs range] Suc.prems]
    show ?thesis by (rule 2 [unfolded next_start])
  qed
  show ?case
  proof (cases "?P m")
    case True
    then show ?thesis
      using unfold upt by (auto simp: batch_grounded_def split: sum.splits)
  next
    case False
    then have rec: "hallucination_batches w docs gen bs (m * bs) calls =
        hallucination_batches w docs gen bs (Suc m * bs) (calls @ [?f m])"
      using unfold by (auto simp: batch_grounded_def split: sum.splits)
    show ?thesis
    proof (cases "find ?P [Suc m..<?nb]")
      case None
      with False rec IH upt show ?thesis by simp
    next
      case (Some k)
      then have "k \<in> set [Suc m..<?nb]"
        by (auto simp: find_Some_iff)
      then have "m < Suc k" by simp
      then have "[m..<Suc k] = m # [Suc m..<Suc k]" by (simp add: upt_conv_Cons)
      with Some False rec IH upt show ?thesis by simp
    qed
  qed
qed

lemma grade_hallucination_find:
  assumes "0 < hallucination_batch_size cfg"
  shows "grade_hallucination cfg w state calls =
     Inr (case find (batch_grounded w (nat (hallucination_batch_size cfg)) (documents state)
                       (generation state) (length calls))
                 [0..<num_batches (nat (hallucination_batch_size cfg)) (documents state)] of
            None \<Rightarrow>
              (False, calls @ batch_calls (nat (hallucination_batch_size cfg)) (documents state)
                                (generation state)
                                (num_batches (nat (hallucination_batch_size cfg)) (documents state)))
          | Some k \<Rightarrow>
              (True, calls @ batch_calls (nat (hallucination_batch_size cfg)) (documents state)
                               (generation state) (Suc k)))"
proof (cases "documents state = []")
  case True
  from assms have "num_batches (nat (hallucination_batch_size cfg)) ([] :: document list) = 0"
    by (simp add: num_batches_def)
  with True show ?thesis
    by (simp add: grade_hallucination_def Let_def batch_calls_def)
next
  case False
  from assms have bs: "0 < nat (hallucination_batch_size cfg)" by simp
  from hallucination_batches_from [OF bs, of calls "length calls" 0 w "documents state" "generation state"]
  show ?thesis
    using assms False
    by (simp add: grade_hallucination_def Let_def batch_calls_def split: option.split)
qed

text \<open>
  C6 (confirmed). The hallucination grader cuts the documents into batches of
  \<^verbatim>\<open>hallucination_batch_size\<close> and checks them in order. When batch \<open>k\<close> is the first
  whose check returns grounded, the grader returns \<^verbatim>\<open>is_grounded = True\<close> and has called
  the model on the batches \<open>0, ..., k\<close> only, so on no later batch. A batch whose call
  raises counts as not grounded and the check goes on to the next batch. When no batch
  returns grounded, and only then, the grader returns \<^verbatim>\<open>is_grounded = False\<close>, after one
  call for every batch (after no call when there is no document). The batch size is
  positive here: \<^verbatim>\<open>range\<close> raises \<^verbatim>\<open>ValueError\<close> for a step of zero and is empty for a
  negative one.
\<close>

theorem hallucination_grader_early_exit:
  assumes "0 < hallucination_batch_size cfg"
    and "bs = nat (hallucination_batch_size cfg)"
    and "grounded = batch_grounded w bs (documents state) (generation state) (length calls)"
  shows "(k < num_batches bs (documents state) \<and> grounded k \<and> (\<forall>j<k. \<not> grounded j) \<longrightarrow>
            grade_hallucination cfg w state calls =
              Inr (True, calls @ batch_calls bs (documents state) (generation state) (Suc k))) \<and>
         ((\<forall>j < num_batches bs (documents state). \<not> grounded j) \<longrightarrow>
            grade_hallucination cfg w state calls =
              Inr (False, calls @ batch_calls bs (documents state) (generation state)
                                    (num_batches bs (documents state)))) \<and>
         (\<forall>calls'. grade_hallucination cfg w state calls = Inr (False, calls') \<longrightarrow>
            (\<forall>j < num_batches bs (documents state). \<not> grounded j))"
proof -
  let ?nb = "num_batches bs (documents state)"
  note closed = grade_hallucination_find [OF assms(1), of w state calls, folded assms(2), folded assms(3)]
  have first: "find grounded [0..<?nb] = Some k"
    if "k < ?nb" "grounded k" "\<forall>j<k. \<not> grounded j"
    using that by (auto simp: find_Some_iff intro!: exI [of _ k])
  have none: "find grounded [0..<?nb] = None" if "\<forall>j < ?nb. \<not> grounded j"
    using that by (simp add: find_None_iff)
  have only: "\<forall>j < ?nb. \<not> grounded j"
    if "grade_hallucination cfg w state calls = Inr (False, calls')" for calls'
  proof (cases "find grounded [0..<?nb]")
    case None
    then show ?thesis by (simp add: find_None_iff)
  next
    case (Some k)
    with closed that show ?thesis by simp
  qed
  from first none only closed show ?thesis by simp
qed

text \<open>
  The witness: seven documents and the default batch size of three make three batches.
  The stub grader raises on the first batch and answers \<^verbatim>\<open>Yes\<close> on the second: the
  grader returns grounded after two calls, and the third batch is never checked.
\<close>

theorem hallucination_grader_early_exit_witness:
  "0 < hallucination_batch_size default_settings \<and>
   num_batches 3 seven_docs = 3 \<and>
   \<not> batch_grounded batches_world 3 seven_docs ''ans'' 0 0 \<and>
   batch_grounded batches_world 3 seven_docs ''ans'' 0 1 \<and>
   grade_hallucination default_settings batches_world
     ((initial_state ''join?'' Map.empty [])\<lparr> documents := seven_docs, generation := ''ans'' \<rparr>) []
     = Inr (True,
            [HallucinationGraderCall (''d1'' @ [CHR 0x0A, CHR 0x0A] @ ''d2'' @ [CHR 0x0A, CHR 0x0A] @ ''d3'') ''ans'',
             HallucinationGraderCall (''d4'' @ [CHR 0x0A, CHR 0x0A] @ ''d5'' @ [CHR 0x0A, CHR 0x0A] @ ''d6'') ''ans''])"
proof -
  let ?s = "(initial_state ''join?'' Map.empty [])\<lparr> documents := seven_docs, generation := ''ans'' \<rparr>"
  have b: "0 < hallucination_batch_size default_settings" by (simp add: default_settings_simps)
  have bs: "3 = nat (hallucination_batch_size default_settings)" by (simp add: default_settings_simps)
  have g: "batch_grounded batches_world 3 seven_docs ''ans'' 0
             = batch_grounded batches_world 3 (documents ?s) (generation ?s) (length ([] :: call list))"
    by simp
  have nb: "num_batches 3 seven_docs = 3" by (simp add: num_batches_def seven_docs_def)
  have g0: "\<not> batch_grounded batches_world 3 seven_docs ''ans'' 0 0"
    by (simp add: batch_grounded_def batches_world_def stub_world_simps)
  have g1: "batch_grounded batches_world 3 seven_docs ''ans'' 0 1"
    by (simp add: batch_grounded_def batches_world_def stub_world_simps lower_def lower_char_def)
  have calls: "batch_calls 3 seven_docs ''ans'' (Suc 1) =
      [HallucinationGraderCall (''d1'' @ [CHR 0x0A, CHR 0x0A] @ ''d2'' @ [CHR 0x0A, CHR 0x0A] @ ''d3'') ''ans'',
       HallucinationGraderCall (''d4'' @ [CHR 0x0A, CHR 0x0A] @ ''d5'' @ [CHR 0x0A, CHR 0x0A] @ ''d6'') ''ans'']"
    by (simp add: batch_calls_def batch_def seven_docs_def format_docs_def)
  have pre: "1 < num_batches 3 (documents ?s) \<and> batch_grounded batches_world 3 seven_docs ''ans'' 0 1 \<and>
             (\<forall>j<1. \<not> batch_grounded batches_world 3 seven_docs ''ans'' 0 j)"
    using nb g0 g1 by simp
  from hallucination_grader_early_exit [OF b bs g, of 1] pre
  have "grade_hallucination default_settings batches_world ?s []
          = Inr (True, [] @ batch_calls 3 (documents ?s) (generation ?s) (Suc 1))"
    by blast
  with calls have "grade_hallucination default_settings batches_world ?s []
     = Inr (True,
            [HallucinationGraderCall (''d1'' @ [CHR 0x0A, CHR 0x0A] @ ''d2'' @ [CHR 0x0A, CHR 0x0A] @ ''d3'') ''ans'',
             HallucinationGraderCall (''d4'' @ [CHR 0x0A, CHR 0x0A] @ ''d5'' @ [CHR 0x0A, CHR 0x0A] @ ''d6'') ''ans''])"
    by simp
  with b nb g0 g1 show ?thesis by blast
qed

subsection \<open>C7: the document grader\<close>

lemma enumerate_shift:
  "map (\<lambda>(i, x). f x (s + i)) (enumerate n xs) = map (\<lambda>(i, x). f x i) (enumerate (s + n) xs)"
  by (induction xs arbitrary: n) simp_all

text \<open>
  The batches put together: for a positive batch size the loop grades every document
  once, in order, each under its position in the list.
\<close>

lemma grade_batches_from:
  assumes bs: "0 < bs"
  shows "grade_batches cfg w r q docs bs (m * bs) =
           map (\<lambda>(i, doc). grade_single_doc cfg w r q doc i) (enumerate (m * bs) (drop (m * bs) docs))"
proof (induction "length docs - m * bs" arbitrary: m rule: less_induct)
  case less
  show ?case
  proof (cases "m * bs < length docs")
    case False
    then show ?thesis by (simp add: grade_batches_stop)
  next
    case True
    let ?g = "\<lambda>(i, doc). grade_single_doc cfg w r q doc i"
    let ?rest = "drop (m * bs) docs"
    have next_start: "m * bs + bs = Suc m * bs" by simp
    from True bs have "length docs - Suc m * bs < length docs - m * bs" by simp
    from less [OF this]
    have IH: "grade_batches cfg w r q docs bs (m * bs + bs) =
                map ?g (enumerate (m * bs + bs) (drop (m * bs + bs) docs))"
      by (simp only: next_start)
    have head: "map (\<lambda>(i, doc). grade_single_doc cfg w r q doc (m * bs + i))
                  (enumerate 0 (take (min (m * bs + bs) (length docs) - m * bs) ?rest))
                = map ?g (enumerate (m * bs) (take bs ?rest))"
      using enumerate_shift [of "\<lambda>doc i. grade_single_doc cfg w r q doc i" "m * bs" 0 "take bs ?rest"]
        loop_batch [OF bs True]
      by (simp add: batch_def)
    have tail: "enumerate (m * bs + bs) (drop (m * bs + bs) docs)
                = enumerate (m * bs + length (take bs ?rest)) (drop bs ?rest)"
    proof (cases "m * bs + bs \<le> length docs")
      case True
      then show ?thesis by (simp add: min_def add.commute)
    next
      case False
      then show ?thesis by simp
    qed
    have "map ?g (enumerate (m * bs) ?rest)
            = map ?g (enumerate (m * bs) (take bs ?rest @ drop bs ?rest))"
      by (simp only: append_take_drop_id)
    also have "\<dots> = map ?g (enumerate (m * bs) (take bs ?rest))
                      @ map ?g (enumerate (m * bs + length (take bs ?rest)) (drop bs ?rest))"
      by (simp only: enumerate_append_eq map_append)
    finally have split: "map ?g (enumerate (m * bs) ?rest)
            = map ?g (enumerate (m * bs) (take bs ?rest))
                @ map ?g (enumerate (m * bs + bs) (drop (m * bs + bs) docs))"
      by (simp only: tail)
    from grade_batches_step [OF bs True, of cfg w r q] head IH split show ?thesis
      by simp
  qed
qed

lemma grade_batches_all:
  assumes "0 < bs"
  shows "grade_batches cfg w r q docs bs 0 =
           map (\<lambda>(i, doc). grade_single_doc cfg w r q doc i) (enumerate 0 docs)"
  using grade_batches_from [OF assms, of cfg w r q docs 0] by simp

lemma grade_single_doc_keeps:
  "keep_result (grade_single_doc cfg w r q doc i) = accepted cfg w r q (i, doc)"
  "fst (fst (grade_single_doc cfg w r q doc i)) = doc"
  by (auto simp: keep_result_def grade_single_doc_def accepted_def Let_def
           split: prod.splits sum.splits option.splits)

lemma filtered_documents:
  "map (\<lambda>x. fst (fst x))
     (filter keep_result (map (\<lambda>(i, doc). grade_single_doc cfg w r q doc i) xs))
   = map snd (filter (accepted cfg w r q) xs)"
  by (induction xs) (auto simp: grade_single_doc_keeps)

text \<open>
  C7 (confirmed). For a batch size other than zero the grading step returns and does
  not raise, whatever the grader returns or raises. With a positive batch size the
  filtered list is the list of the documents, in order, whose grading ended with the
  label \<^verbatim>\<open>yes\<close> and a confidence of at least
  \<^verbatim>\<open>document_grading_confidence_threshold\<close>: a document is in it if and only if it was so
  graded, and a document whose grading ended with an exception is not in it. (A negative
  batch size makes the range of batches empty: no document is graded and none is kept.)
  The witness below grades four documents at the threshold 0.6: the one scored
  (yes, 0.59) is dropped, the one scored (yes, 0.60) is kept, the one whose grading
  raises on every attempt is dropped, and so is the one scored (no, 0.95).
\<close>

theorem document_grader_policy:
  assumes "document_grading_batch_size cfg \<noteq> 0"
  shows "\<exists>state' calls'.
           grade_documents cfg w state calls = Inr (state', calls') \<and>
           documents state' =
             (if 0 < document_grading_batch_size cfg
              then map snd (filter (accepted cfg w (length calls) (question state))
                              (enumerate 0 (documents state)))
              else [])"
proof (cases "0 < document_grading_batch_size cfg")
  case True
  then have bs: "0 < nat (document_grading_batch_size cfg)" by simp
  from True show ?thesis
    by (simp add: grade_documents_def grade_all_docs_def Let_def
          grade_batches_all [OF bs] filtered_documents)
next
  case False
  with assms show ?thesis
    by (simp add: grade_documents_def grade_all_docs_def Let_def)
qed

theorem document_grader_policy_witness:
  "document_grading_batch_size default_settings \<noteq> 0 \<and>
   document_grading_confidence_threshold default_settings = 6 / 10 \<and>
   \<not> accepted default_settings threshold_world 0 ''join?'' (0, \<lparr> page_content = ''d59'', metadata = [] \<rparr>) \<and>
   accepted default_settings threshold_world 0 ''join?'' (1, \<lparr> page_content = ''d60'', metadata = [] \<rparr>) \<and>
   \<not> accepted default_settings threshold_world 0 ''join?'' (2, \<lparr> page_content = ''derr'', metadata = [] \<rparr>) \<and>
   \<not> accepted default_settings threshold_world 0 ''join?'' (3, \<lparr> page_content = ''dno'', metadata = [] \<rparr>) \<and>
   (\<exists>state' calls'.
      grade_documents default_settings threshold_world
        ((initial_state ''join?'' Map.empty [])\<lparr> documents := threshold_docs \<rparr>) [] = Inr (state', calls') \<and>
      documents state' = [\<lparr> page_content = ''d60'', metadata = [] \<rparr>])"
proof -
  let ?s = "(initial_state ''join?'' Map.empty [])\<lparr> documents := threshold_docs \<rparr>"
  have b: "document_grading_batch_size default_settings \<noteq> 0"
    by (simp add: default_settings_simps)
  have t: "document_grading_confidence_threshold default_settings = 6 / 10"
    by (simp add: default_settings_simps)
  have a0: "\<not> accepted default_settings threshold_world 0 ''join?'' (0, \<lparr> page_content = ''d59'', metadata = [] \<rparr>)"
    by (simp add: accepted_def threshold_world_def stub_world_simps default_settings_simps
          grading_attempts_unfold)
  have a1: "accepted default_settings threshold_world 0 ''join?'' (1, \<lparr> page_content = ''d60'', metadata = [] \<rparr>)"
    by (simp add: accepted_def threshold_world_def stub_world_simps default_settings_simps
          grading_attempts_unfold)
  have a2: "\<not> accepted default_settings threshold_world 0 ''join?'' (2, \<lparr> page_content = ''derr'', metadata = [] \<rparr>)"
    by (simp add: accepted_def threshold_world_def stub_world_simps default_settings_simps
          grading_attempts_unfold is_tcp_error_def lower_def lower_char_def)
  have a3: "\<not> accepted default_settings threshold_world 0 ''join?'' (3, \<lparr> page_content = ''dno'', metadata = [] \<rparr>)"
    by (simp add: accepted_def threshold_world_def stub_world_simps default_settings_simps
          grading_attempts_unfold)
  have e: "enumerate 0 (documents ?s) =
             [(0, \<lparr> page_content = ''d59'', metadata = [] \<rparr>), (1, \<lparr> page_content = ''d60'', metadata = [] \<rparr>),
              (2, \<lparr> page_content = ''derr'', metadata = [] \<rparr>), (3, \<lparr> page_content = ''dno'', metadata = [] \<rparr>)]"
    by (simp add: threshold_docs_def)
  have q: "question ?s = ''join?''" "length ([] :: call list) = 0"
    by (simp_all add: initial_state_def)
  from document_grader_policy [OF b, of threshold_world ?s "[]"]
  obtain state' calls' where
    g: "grade_documents default_settings threshold_world ?s [] = Inr (state', calls')" and
    d: "documents state' =
          (if 0 < document_grading_batch_size default_settings
           then map snd (filter (accepted default_settings threshold_world (length ([] :: call list))
                                   (question ?s))
                           (enumerate 0 (documents ?s)))
           else [])"
    by blast
  from d have "documents state' = [\<lparr> page_content = ''d60'', metadata = [] \<rparr>]"
    unfolding e q using a0 a1 a2 a3 by (simp add: default_settings_simps)
  with g b t a0 a1 a2 a3 show ?thesis by blast
qed

end
